theory Spec2Isabelle
  imports Complex_Main
begin

section \<open>JavaScript numbers\<close>

text \<open>
  A JavaScript number is an IEEE double. The model keeps the three special values apart
  and represents every finite double by the real number it denotes. The sums, products
  and quotients of finite values are exact: rounding is not represented, and the two
  zeros are identified. The special values follow IEEE 754. \<open>Math.exp\<close> leaves the range
  of the finite doubles on finite arguments, which decides the sign of a scale and the
  branch taken for an opacity, so its overflow and underflow are part of the model.
\<close>

datatype jsnum = NaN | NegInf | PosInf | Fin real

text \<open>A property read yields a number or \<open>undefined\<close> (\<open>None\<close>).\<close>

type_synonym jsval = "jsnum option"

text \<open>ToBoolean: \<open>undefined\<close>, \<open>NaN\<close> and zero are falsy.\<close>

fun truthy :: "jsval \<Rightarrow> bool" where
  "truthy None = False"
| "truthy (Some NaN) = False"
| "truthy (Some (Fin x)) = (x \<noteq> 0)"
| "truthy (Some NegInf) = True"
| "truthy (Some PosInf) = True"

text \<open>\<open>a || b\<close> on values, and \<open>a || d\<close> where the last operand is a number literal.\<close>

definition js_or :: "jsval \<Rightarrow> jsval \<Rightarrow> jsval" where
  "js_or a b = (if truthy a then a else b)"

definition js_or_num :: "jsval \<Rightarrow> jsnum \<Rightarrow> jsnum" where
  "js_or_num a d = (if truthy a then the a else d)"

text \<open>ToNumber on a value: \<open>undefined\<close> becomes \<open>NaN\<close>.\<close>

fun to_number :: "jsval \<Rightarrow> jsnum" where
  "to_number None = NaN"
| "to_number (Some n) = n"

fun js_neg :: "jsnum \<Rightarrow> jsnum" where
  "js_neg NaN = NaN"
| "js_neg NegInf = PosInf"
| "js_neg PosInf = NegInf"
| "js_neg (Fin x) = Fin (- x)"

fun js_add :: "jsnum \<Rightarrow> jsnum \<Rightarrow> jsnum" where
  "js_add NaN _ = NaN"
| "js_add _ NaN = NaN"
| "js_add PosInf NegInf = NaN"
| "js_add NegInf PosInf = NaN"
| "js_add PosInf _ = PosInf"
| "js_add NegInf _ = NegInf"
| "js_add _ PosInf = PosInf"
| "js_add _ NegInf = NegInf"
| "js_add (Fin x) (Fin y) = Fin (x + y)"

definition js_sub :: "jsnum \<Rightarrow> jsnum \<Rightarrow> jsnum" where
  "js_sub a b = js_add a (js_neg b)"

text \<open>The sign of a number that is not \<open>NaN\<close>; a zero counts as positive.\<close>

fun negative :: "jsnum \<Rightarrow> bool" where
  "negative NegInf = True"
| "negative (Fin x) = (x < 0)"
| "negative _ = False"

definition signed_inf :: "bool \<Rightarrow> jsnum" where
  "signed_inf neg = (if neg then NegInf else PosInf)"

fun js_mul :: "jsnum \<Rightarrow> jsnum \<Rightarrow> jsnum" where
  "js_mul NaN _ = NaN"
| "js_mul _ NaN = NaN"
| "js_mul (Fin x) (Fin y) = Fin (x * y)"
| "js_mul (Fin x) b = (if x = 0 then NaN else signed_inf (negative (Fin x) \<noteq> negative b))"
| "js_mul a (Fin y) = (if y = 0 then NaN else signed_inf (negative a \<noteq> negative (Fin y)))"
| "js_mul a b = signed_inf (negative a \<noteq> negative b)"

fun js_div :: "jsnum \<Rightarrow> jsnum \<Rightarrow> jsnum" where
  "js_div NaN _ = NaN"
| "js_div _ NaN = NaN"
| "js_div (Fin x) (Fin y) =
     (if y = 0 then (if x = 0 then NaN else signed_inf (x < 0)) else Fin (x / y))"
| "js_div (Fin x) b = Fin 0"
| "js_div a (Fin y) = signed_inf (negative a \<noteq> negative (Fin y))"
| "js_div a b = NaN"

text \<open>
  The range of the doubles. A real number at or above \<open>2^1024 - 2^970\<close>, the midpoint
  between the largest double and \<open>2^1024\<close>, rounds to \<open>+Infinity\<close>; a positive real
  number at or below \<open>2^-1075\<close>, half the least positive double, rounds to 0.
\<close>

definition overflow_bound :: real where
  "overflow_bound = 2 ^ 1024 - 2 ^ 970"

definition underflow_bound :: real where
  "underflow_bound = 1 / 2 ^ 1075"

text \<open>
  \<open>Math.exp\<close> on a finite argument: \<open>+Infinity\<close> where the exponential overflows
  (arguments above about 709.78), 0 where it underflows (arguments below about -745.13),
  and the exponential itself in between, where only its rounding is left out.
\<close>

definition exp_double :: "real \<Rightarrow> jsnum" where
  "exp_double x =
     (if overflow_bound \<le> exp x then PosInf
      else if exp x \<le> underflow_bound then Fin 0
      else Fin (exp x))"

text \<open>\<open>Math.exp\<close>, with the special cases of the language standard.\<close>

fun js_exp :: "jsnum \<Rightarrow> jsnum" where
  "js_exp NaN = NaN"
| "js_exp NegInf = Fin 0"
| "js_exp PosInf = PosInf"
| "js_exp (Fin x) = exp_double x"

text \<open>The order of numbers; every comparison with \<open>NaN\<close> is false.\<close>

fun js_less :: "jsnum \<Rightarrow> jsnum \<Rightarrow> bool" where
  "js_less NaN _ = False"
| "js_less _ NaN = False"
| "js_less (Fin x) (Fin y) = (x < y)"
| "js_less NegInf b = (b \<noteq> NegInf)"
| "js_less a PosInf = (a \<noteq> PosInf)"
| "js_less _ _ = False"

definition js_le :: "jsnum \<Rightarrow> jsnum \<Rightarrow> bool" where
  "js_le a b = (js_less a b \<or> (a = b \<and> a \<noteq> NaN))"

text \<open>\<open>Math.min\<close> and \<open>Math.max\<close> of two numbers: \<open>NaN\<close> if either is.\<close>

definition js_min :: "jsnum \<Rightarrow> jsnum \<Rightarrow> jsnum" where
  "js_min a b = (if a = NaN \<or> b = NaN then NaN else if js_less b a then b else a)"

definition js_max :: "jsnum \<Rightarrow> jsnum \<Rightarrow> jsnum" where
  "js_max a b = (if a = NaN \<or> b = NaN then NaN else if js_less a b then b else a)"

text \<open>Strict equality \<open>a === b\<close> of numbers.\<close>

definition js_eq :: "jsnum \<Rightarrow> jsnum \<Rightarrow> bool" where
  "js_eq a b = (a = b \<and> a \<noteq> NaN)"

section \<open>The attribute post-processor: processVertex\<close>

text \<open>
  A raw vertex is the object that maps a property name to the number decoded for it; a
  name that was never assigned reads as \<open>undefined\<close>.
\<close>

type_synonym vertex = "string \<Rightarrow> jsval"

record splat =
  position :: "jsnum list"
  scale :: "jsnum list"
  rotation :: "jsval list"
  opacity :: jsnum
  sh_dc :: "jsnum list"
  sh_rest :: "jsnum list"

text \<open>The literal \<open>0.28209479177387814\<close>.\<close>

definition SH_C0 :: real where
  "SH_C0 = 28209479177387814 / 10 ^ 17"

text \<open>Decimal notation of an index, as the template literal \<open>f_rest_${i}\<close> prints it.\<close>

fun digits10 :: "nat \<Rightarrow> string" where
  "digits10 n =
     (if n < 10 then [char_of (48 + n)]
      else digits10 (n div 10) @ [char_of (48 + n mod 10)])"

text \<open>The primary and the alternative name of each scale component.\<close>

definition scale_fields :: "(string \<times> string) list" where
  "scale_fields =
     [(''scale_0'', ''scale_x''), (''scale_1'', ''scale_y''), (''scale_2'', ''scale_z'')]"

definition raw_scale :: "vertex \<Rightarrow> string \<times> string \<Rightarrow> jsnum" where
  "raw_scale v f = js_or_num (js_or (v (fst f)) (v (snd f))) (Fin (1 / 100))"

definition sigmoid_opacity :: "vertex \<Rightarrow> jsnum" where
  "sigmoid_opacity v =
     js_div (Fin 1) (js_add (Fin 1) (js_exp (js_neg (to_number (v ''opacity'')))))"

definition rgb8_to_dc :: "jsval \<Rightarrow> jsnum" where
  "rgb8_to_dc c =
     js_div (js_sub (js_div (to_number c) (Fin 255)) (Fin (1 / 2))) (Fin SH_C0)"

definition rgb_to_dc :: "jsval \<Rightarrow> jsnum" where
  "rgb_to_dc c = js_div (js_sub (to_number c) (Fin (1 / 2))) (Fin SH_C0)"

definition processVertex :: "vertex \<Rightarrow> splat" where
  "processVertex v =
     (let pos = [js_or_num (v ''x'') (Fin 0), js_or_num (v ''y'') (Fin 0),
                 js_or_num (v ''z'') (Fin 0)];
          scl = map js_exp (map (raw_scale v) scale_fields);
          rot = [v ''rot_0'', v ''rot_1'', v ''rot_2'', v ''rot_3''];
          opa0 = sigmoid_opacity v;
          opa = js_max (Fin 0)
                  (js_min (Fin 1)
                     (js_or_num (js_or (Some opa0) (v ''alpha'')) (Fin (8 / 10))));
          dc0 = [js_or_num (v ''f_dc_0'') (Fin 0), js_or_num (v ''f_dc_1'') (Fin 0),
                 js_or_num (v ''f_dc_2'') (Fin 0)];
          rest = map (\<lambda>i. js_or_num (v (''f_rest_'' @ digits10 i)) (Fin 0)) [0..<45];
          dc =
            (if js_eq (dc0 ! 0) (Fin 0) \<and> js_eq (dc0 ! 1) (Fin 0) \<and> js_eq (dc0 ! 2) (Fin 0)
             then
               (if v ''red'' \<noteq> None \<and> v ''green'' \<noteq> None \<and> v ''blue'' \<noteq> None
                then [rgb8_to_dc (v ''red''), rgb8_to_dc (v ''green''), rgb8_to_dc (v ''blue'')]
                else if v ''r'' \<noteq> None \<and> v ''g'' \<noteq> None \<and> v ''b'' \<noteq> None
                then [rgb_to_dc (v ''r''), rgb_to_dc (v ''g''), rgb_to_dc (v ''b'')]
                else [Fin (1 / 2), Fin 0, Fin (- (1 / 2))])
             else dc0)
      in \<lparr>position = pos, scale = scl, rotation = rot, opacity = opa, sh_dc = dc,
          sh_rest = rest\<rparr>)"

declare digits10.simps [simp del]

text \<open>
  Predicates on a raw vertex used to state the properties of the colour fallback: all
  three \<open>f_dc\<close> fields are absent, \<open>NaN\<close> or zero; every name of a list is assigned.
\<close>

definition dc_names :: "string list" where
  "dc_names = [''f_dc_0'', ''f_dc_1'', ''f_dc_2'']"

definition dc_all_zero :: "vertex \<Rightarrow> bool" where
  "dc_all_zero v = (\<forall>k \<in> set dc_names. v k = None \<or> v k = Some NaN \<or> v k = Some (Fin 0))"

definition all_present :: "vertex \<Rightarrow> string list \<Rightarrow> bool" where
  "all_present v ks = (\<forall>k \<in> set ks. v k \<noteq> None)"

text \<open>
  The raw opacities whose sigmoid is falsy, so that the fallback is consulted: absent,
  \<open>NaN\<close>, \<open>-Infinity\<close>, or finite and so negative that \<open>Math.exp(-opacity)\<close> overflows.
\<close>

definition opacity_falls_back :: "vertex \<Rightarrow> bool" where
  "opacity_falls_back v =
     (v ''opacity'' = None \<or> v ''opacity'' = Some NaN \<or> v ''opacity'' = Some NegInf \<or>
      (\<exists>x. v ''opacity'' = Some (Fin x) \<and> overflow_bound \<le> exp (- x)))"

section \<open>Strings and byte buffers\<close>

text \<open>
  A byte buffer is a list of 8-bit characters. A JavaScript string is represented by its
  UTF-8 encoding, again a list of bytes: every string the loader handles comes out of
  \<open>TextDecoder\<close> or is an ASCII literal, so it is a sequence of Unicode scalar values, and
  the length of \<open>new TextEncoder().encode(s)\<close> is the length of its representation.
  Splitting at an ASCII character and removing white space act on the encoding as they
  do on the string, since no byte of a multi-byte sequence is an ASCII byte.
\<close>

type_synonym bytes = "char list"

definition in_range :: "nat \<Rightarrow> nat \<Rightarrow> char \<Rightarrow> bool" where
  "in_range lo hi c = (lo \<le> of_char c \<and> (of_char c :: nat) \<le> hi)"

text \<open>The encoding of U+FFFD, the replacement character.\<close>

definition replacement :: string where
  "replacement = [char_of (0xEF :: nat), char_of (0xBF :: nat), char_of (0xBD :: nat)]"

text \<open>
  The UTF-8 decoder of the platform (non-fatal mode): a well-formed sequence is kept, a
  maximal ill-formed prefix is replaced by U+FFFD and decoding resumes at the byte that
  did not fit.
\<close>

fun utf8_decode :: "bytes \<Rightarrow> string" where
  "utf8_decode [] = []"
| "utf8_decode (b # bs) =
     (if in_range 0 0x7F b then b # utf8_decode bs
      else if in_range 0xC2 0xDF b then
        (case bs of
           [] \<Rightarrow> replacement
         | c # cs \<Rightarrow>
             if in_range 0x80 0xBF c then b # c # utf8_decode cs
             else replacement @ utf8_decode bs)
      else if in_range 0xE0 0xEF b then
        (case bs of
           [] \<Rightarrow> replacement
         | c # cs \<Rightarrow>
             if in_range (if of_char b = (0xE0 :: nat) then 0xA0 else 0x80)
                  (if of_char b = (0xED :: nat) then 0x9F else 0xBF) c
             then
               (case cs of
                  [] \<Rightarrow> replacement
                | d # ds \<Rightarrow>
                    if in_range 0x80 0xBF d then b # c # d # utf8_decode ds
                    else replacement @ utf8_decode cs)
             else replacement @ utf8_decode bs)
      else if in_range 0xF0 0xF4 b then
        (case bs of
           [] \<Rightarrow> replacement
         | c # cs \<Rightarrow>
             if in_range (if of_char b = (0xF0 :: nat) then 0x90 else 0x80)
                  (if of_char b = (0xF4 :: nat) then 0x8F else 0xBF) c
             then
               (case cs of
                  [] \<Rightarrow> replacement
                | d # ds \<Rightarrow>
                    if in_range 0x80 0xBF d then
                      (case ds of
                         [] \<Rightarrow> replacement
                       | e # es \<Rightarrow>
                           if in_range 0x80 0xBF e then b # c # d # e # utf8_decode es
                           else replacement @ utf8_decode ds)
                    else replacement @ utf8_decode cs)
             else replacement @ utf8_decode bs)
      else replacement @ utf8_decode bs)"

text \<open>\<open>new TextDecoder().decode(buffer)\<close>: a leading byte order mark is dropped.\<close>

definition bom :: string where
  "bom = [char_of (0xEF :: nat), char_of (0xBB :: nat), char_of (0xBF :: nat)]"

definition TextDecoder_decode :: "bytes \<Rightarrow> string" where
  "TextDecoder_decode buf = utf8_decode (if take 3 buf = bom then drop 3 buf else buf)"

text \<open>\<open>new TextEncoder().encode(s).length\<close>.\<close>

definition encoded_length :: "string \<Rightarrow> nat" where
  "encoded_length s = length s"

text \<open>
  White space in the sense of \<open>String.prototype.trim\<close>, of the class \<open>\s\<close> and of the
  prefix that \<open>parseInt\<close> and \<open>parseFloat\<close> skip: the ASCII characters 9 to 13 and 32,
  U+00A0, U+1680, U+2000 to U+200A, U+2028, U+2029, U+202F, U+205F, U+3000 and U+FEFF.
  \<open>ws_len s\<close> is the number of bytes of the white space character at the head of \<open>s\<close>,
  and 0 if there is none.
\<close>

definition ws3 :: "nat list list" where
  "ws3 = [ [0xE1, 0x9A, 0x80] ] @ map (\<lambda>k. [0xE2, 0x80, 0x80 + k]) [0..<11] @
         [ [0xE2, 0x80, 0xA8], [0xE2, 0x80, 0xA9], [0xE2, 0x80, 0xAF], [0xE2, 0x81, 0x9F],
          [0xE3, 0x80, 0x80], [0xEF, 0xBB, 0xBF] ]"

definition ws_len :: "string \<Rightarrow> nat" where
  "ws_len s =
     (if map of_char (take 1 s) \<in> set (map (\<lambda>k. [k]) [9, 10, 11, 12, 13, 32 :: nat]) then 1
      else if map of_char (take 2 s) = [0xC2, 0xA0 :: nat] then 2
      else if map of_char (take 3 s) \<in> set ws3 then 3
      else 0)"

text \<open>Marks the bytes that belong to a white space character; \<open>k\<close> bytes are still owed.\<close>

fun mark_ws :: "nat \<Rightarrow> string \<Rightarrow> bool list" where
  "mark_ws k [] = []"
| "mark_ws k (c # cs) =
     (if 0 < k then True # mark_ws (k - 1) cs
      else if 0 < ws_len (c # cs) then True # mark_ws (ws_len (c # cs) - 1) cs
      else False # mark_ws 0 cs)"

definition marked :: "string \<Rightarrow> (char \<times> bool) list" where
  "marked s = zip s (mark_ws 0 s)"

definition trim_left :: "string \<Rightarrow> string" where
  "trim_left s = map fst (dropWhile snd (marked s))"

text \<open>\<open>s.trim()\<close>.\<close>

definition trim :: "string \<Rightarrow> string" where
  "trim s = map fst (rev (dropWhile snd (rev (dropWhile snd (marked s)))))"

text \<open>\<open>s.split(c)\<close> for a one-character separator: the result is never empty.\<close>

fun split_on :: "char \<Rightarrow> string \<Rightarrow> string list" where
  "split_on sep [] = [ [] ]"
| "split_on sep (c # cs) =
     (if c = sep then [] # split_on sep cs
      else (case split_on sep cs of [] \<Rightarrow> [ [c] ] | l # ls \<Rightarrow> (c # l) # ls))"

text \<open>\<open>s.split(/\s+/)\<close>: the pieces between maximal runs of white space.\<close>

fun split_runs :: "(char \<times> bool) list \<Rightarrow> string list" where
  "split_runs [] = [ [] ]"
| "split_runs ((c, False) # xs) =
     (case split_runs xs of [] \<Rightarrow> [ [c] ] | t # ts \<Rightarrow> (c # t) # ts)"
| "split_runs ((c, True) # xs) =
     (case xs of (_, True) # _ \<Rightarrow> split_runs xs | _ \<Rightarrow> [] # split_runs xs)"

definition split_ws :: "string \<Rightarrow> string list" where
  "split_ws s = split_runs (marked s)"

text \<open>Array indexing: an index out of range reads as \<open>undefined\<close>.\<close>

definition js_index :: "'a list \<Rightarrow> nat \<Rightarrow> 'a option" where
  "js_index xs i = (if i < length xs then Some (xs ! i) else None)"

definition newline :: char where
  "newline = char_of (10 :: nat)"

section \<open>parseInt and parseFloat\<close>

definition is_digit :: "char \<Rightarrow> bool" where
  "is_digit c = in_range 48 57 c"

text \<open>The value of a digit in a radix up to 16, if it is one.\<close>

definition digit_value :: "nat \<Rightarrow> char \<Rightarrow> nat option" where
  "digit_value radix c =
     (let d = (if in_range 48 57 c then Some (of_char c - 48)
               else if in_range 97 102 c then Some (of_char c - 87)
               else if in_range 65 70 c then Some (of_char c - 55)
               else None)
      in case d of None \<Rightarrow> None | Some n \<Rightarrow> if n < radix then Some n else None)"

definition radix_value :: "nat \<Rightarrow> string \<Rightarrow> nat" where
  "radix_value radix ds = foldl (\<lambda>a c. a * radix + the (digit_value radix c)) 0 ds"

text \<open>
  \<open>parseInt(s)\<close> with no radix, for an argument that may be \<open>undefined\<close>: an integer, or
  \<open>NaN\<close> (\<open>None\<close>) when no digit follows the optional sign and \<open>0x\<close> prefix.
\<close>

definition parseInt :: "string option \<Rightarrow> int option" where
  "parseInt a =
     (case a of
        None \<Rightarrow> None
      | Some str \<Rightarrow>
          (let s = trim_left str;
               neg = (take 1 s = ''-'');
               s1 = (if take 1 s = ''-'' \<or> take 1 s = ''+'' then drop 1 s else s);
               hex = (take 2 s1 = ''0x'' \<or> take 2 s1 = ''0X'');
               radix = (if hex then 16 else 10);
               s2 = (if hex then drop 2 s1 else s1);
               ds = takeWhile (\<lambda>c. digit_value radix c \<noteq> None) s2
           in if ds = [] then None
              else Some ((if neg then - 1 else 1) * int (radix_value radix ds))))"

text \<open>The exponent part that follows a decimal literal, and 0 if there is none.\<close>

definition exponent_part :: "string \<Rightarrow> int" where
  "exponent_part r =
     (if take 1 r = ''e'' \<or> take 1 r = ''E'' then
        (let r1 = drop 1 r;
             r2 = (if take 1 r1 = ''-'' \<or> take 1 r1 = ''+'' then drop 1 r1 else r1);
             ds = takeWhile is_digit r2
         in if ds = [] then 0
            else (if take 1 r1 = ''-'' then - 1 else 1) * int (radix_value 10 ds))
      else 0)"

text \<open>
  \<open>parseFloat(s)\<close>: the value of the longest prefix, after leading white space, that is a
  decimal literal, and \<open>NaN\<close> if there is none.
\<close>

definition parseFloat :: "string \<Rightarrow> jsnum" where
  "parseFloat str =
     (let s = trim_left str;
          neg = (take 1 s = ''-'');
          s1 = (if take 1 s = ''-'' \<or> take 1 s = ''+'' then drop 1 s else s)
      in if take 8 s1 = ''Infinity'' then signed_inf neg
         else
           (let ip = takeWhile is_digit s1;
                r1 = dropWhile is_digit s1;
                dot = (take 1 r1 = ''.'');
                fp = (if dot then takeWhile is_digit (drop 1 r1) else []);
                r2 = (if dot then dropWhile is_digit (drop 1 r1) else r1);
                ex = exponent_part r2;
                m = real (radix_value 10 ip) + real (radix_value 10 fp) / 10 ^ length fp;
                p = (if 0 \<le> ex then m * 10 ^ nat ex else m / 10 ^ nat (- ex))
            in if ip = [] \<and> fp = [] then NaN
               else Fin (if neg then - p else p)))"

section \<open>The header parser: parseHeader\<close>

text \<open>
  The type and the name of a property and the format of a header are the pieces
  \<open>parts[1]\<close> and \<open>parts[2]\<close> of a line, and \<open>undefined\<close> (\<open>None\<close>) when the line has no
  such piece. \<open>parseInt\<close> yields an integer or \<open>NaN\<close>, so the vertex count is an integer
  or \<open>None\<close> for \<open>NaN\<close>.
\<close>

record property =
  ptype :: "string option"
  pname :: "string option"

record header =
  format :: "string option"
  vertexCount :: "int option"
  properties :: "property list"
  headerLength :: nat

definition initial_header :: header where
  "initial_header =
     \<lparr>format = Some ''ascii'', vertexCount = Some 0, properties = [], headerLength = 0\<rparr>"

text \<open>
  The loop over the lines. The state is the header built so far, the \<open>littleEndian\<close>
  field of the loader, the flag \<open>inHeader\<close> and the text accumulated in \<open>headerText\<close>.
  The loop ends at the first line that trims to \<open>end_header\<close>, or with the lines.
\<close>

fun header_loop :: "string list \<Rightarrow> bool \<Rightarrow> string \<Rightarrow> header \<times> bool \<Rightarrow> header \<times> bool" where
  "header_loop [] inHeader headerText st = st"
| "header_loop (l # ls) inHeader headerText (h, le) =
     (let line = trim l;
          headerText' = headerText @ line @ [newline]
      in if line = ''ply'' then header_loop ls True headerText' (h, le)
         else if line = ''end_header''
         then (h\<lparr>headerLength := encoded_length headerText'\<rparr>, le)
         else if \<not> inHeader then header_loop ls inHeader headerText' (h, le)
         else
           (let parts = split_on CHR '' '' line in
            if js_index parts 0 = Some ''format''
            then header_loop ls inHeader headerText'
                   (h\<lparr>format := js_index parts 1\<rparr>,
                    js_index parts 1 = Some ''binary_little_endian'')
            else if js_index parts 0 = Some ''element'' \<and> js_index parts 1 = Some ''vertex''
            then header_loop ls inHeader headerText'
                   (h\<lparr>vertexCount := parseInt (js_index parts 2)\<rparr>, le)
            else if js_index parts 0 = Some ''property''
            then header_loop ls inHeader headerText'
                   (h\<lparr>properties := properties h @
                        [\<lparr>ptype = js_index parts 1, pname = js_index parts 2\<rparr>]\<rparr>, le)
            else header_loop ls inHeader headerText' (h, le)))"

text \<open>
  \<open>parseHeader\<close> takes the \<open>littleEndian\<close> field of the loader and the buffer, and
  returns the header with the new value of the field. It has no failing branch.
\<close>

definition parseHeader :: "bool \<Rightarrow> bytes \<Rightarrow> header \<times> bool" where
  "parseHeader le buffer =
     header_loop (split_on newline (TextDecoder_decode buffer)) False [] (initial_header, le)"

section \<open>The property layout: createPropertyMap\<close>

definition getTypeSize :: "string option \<Rightarrow> nat" where
  "getTypeSize t =
     (if t = Some ''float'' then 4
      else if t = Some ''double'' then 8
      else if t = Some ''int'' \<or> t = Some ''uint'' then 4
      else if t = Some ''short'' \<or> t = Some ''ushort'' then 2
      else if t = Some ''char'' \<or> t = Some ''uchar'' then 1
      else 4)"

record prop_info =
  p_offset :: nat
  p_type :: "string option"
  p_size :: nat

text \<open>A property key: \<open>undefined\<close> is converted to the string \<open>undefined\<close>.\<close>

definition key_of :: "string option \<Rightarrow> string" where
  "key_of k = (case k of None \<Rightarrow> ''undefined'' | Some s \<Rightarrow> s)"

text \<open>
  The own properties of a plain object in insertion order. Assigning to an existing key
  keeps its place; assigning to the key \<open>__proto__\<close> sets the prototype and creates no
  own property. (Keys that are array indices are enumerated first by the platform; the
  reads that follow the enumeration are independent of each other, so the order kept
  here gives the same vertex and the same failures.)
\<close>

fun obj_set :: "(string \<times> 'a) list \<Rightarrow> string \<Rightarrow> 'a \<Rightarrow> (string \<times> 'a) list" where
  "obj_set [] k x = (if k = ''__proto__'' then [] else [(k, x)])"
| "obj_set ((k', y) # m) k x = (if k' = k then (k, x) # m else (k', y) # obj_set m k x)"

fun property_map_loop ::
  "property list \<Rightarrow> (string \<times> prop_info) list \<Rightarrow> nat \<Rightarrow> (string \<times> prop_info) list \<times> nat" where
  "property_map_loop [] m offset = (m, offset)"
| "property_map_loop (p # ps) m offset =
     property_map_loop ps
       (obj_set m (key_of (pname p))
          \<lparr>p_offset = offset, p_type = ptype p, p_size = getTypeSize (ptype p)\<rparr>)
       (offset + getTypeSize (ptype p))"

text \<open>
  The result is the list of entries and \<open>vertexSize\<close>. The source stores \<open>vertexSize\<close> in
  the same object under that key, which replaces an entry of a property of that name;
  the decoder skips the key when it enumerates the object.
\<close>

definition createPropertyMap :: "property list \<Rightarrow> (string \<times> prop_info) list \<times> nat" where
  "createPropertyMap props = property_map_loop props [] 0"

section \<open>The binary reader: readBinaryValue\<close>

datatype error = RangeError

text \<open>
  The \<open>n\<close> bytes at an offset of the buffer, least significant first; the accessors of
  \<open>DataView\<close> throw \<open>RangeError\<close> when the bytes are not all inside the buffer.
\<close>

definition get_bytes :: "bool \<Rightarrow> bytes \<Rightarrow> nat \<Rightarrow> nat \<Rightarrow> error + nat list" where
  "get_bytes le buf off n =
     (if off + n \<le> length buf
      then Inr (let bs = map of_char (take n (drop off buf)) in if le then bs else rev bs)
      else Inl RangeError)"

definition uint_of :: "nat list \<Rightarrow> nat" where
  "uint_of bs = foldr (\<lambda>b a. b + 256 * a) bs 0"

text \<open>The two's complement reading of \<open>n\<close> bytes.\<close>

definition sint_of :: "nat list \<Rightarrow> int" where
  "sint_of bs =
     (if 2 ^ (8 * length bs - 1) \<le> uint_of bs
      then int (uint_of bs) - 2 ^ (8 * length bs)
      else int (uint_of bs))"

text \<open>
  The number an IEEE 754 bit pattern denotes, for a format with \<open>eb\<close> exponent bits and
  \<open>mb\<close> mantissa bits: binary32 is \<open>ieee 8 23\<close>, binary64 is \<open>ieee 11 52\<close>.
\<close>

definition ieee :: "nat \<Rightarrow> nat \<Rightarrow> nat \<Rightarrow> jsnum" where
  "ieee eb mb w =
     (let m = w mod 2 ^ mb;
          e = (w div 2 ^ mb) mod 2 ^ eb;
          neg = (w div 2 ^ (mb + eb)) mod 2 = 1;
          bias = 2 ^ (eb - 1) - 1;
          mag = (if e = 0 then real m / 2 ^ (bias - 1 + mb)
                 else if bias + mb \<le> e then real (2 ^ mb + m) * 2 ^ (e - (bias + mb))
                 else real (2 ^ mb + m) / 2 ^ (bias + mb - e))
      in if e = 2 ^ eb - 1 then (if m = 0 then signed_inf neg else NaN)
         else Fin (if neg then - mag else mag))"

definition map_result :: "('a \<Rightarrow> 'b) \<Rightarrow> error + 'a \<Rightarrow> error + 'b" where
  "map_result f r = (case r of Inl e \<Rightarrow> Inl e | Inr x \<Rightarrow> Inr (f x))"

definition readBinaryValue :: "bool \<Rightarrow> bytes \<Rightarrow> nat \<Rightarrow> string option \<Rightarrow> error + jsnum" where
  "readBinaryValue le buf offset t =
     (if t = Some ''float'' then map_result (\<lambda>bs. ieee 8 23 (uint_of bs)) (get_bytes le buf offset 4)
      else if t = Some ''double''
      then map_result (\<lambda>bs. ieee 11 52 (uint_of bs)) (get_bytes le buf offset 8)
      else if t = Some ''int''
      then map_result (\<lambda>bs. Fin (real_of_int (sint_of bs))) (get_bytes le buf offset 4)
      else if t = Some ''uint''
      then map_result (\<lambda>bs. Fin (real (uint_of bs))) (get_bytes le buf offset 4)
      else if t = Some ''short''
      then map_result (\<lambda>bs. Fin (real_of_int (sint_of bs))) (get_bytes le buf offset 2)
      else if t = Some ''ushort''
      then map_result (\<lambda>bs. Fin (real (uint_of bs))) (get_bytes le buf offset 2)
      else if t = Some ''char''
      then map_result (\<lambda>bs. Fin (real_of_int (sint_of bs))) (get_bytes le buf offset 1)
      else if t = Some ''uchar''
      then map_result (\<lambda>bs. Fin (real (uint_of bs))) (get_bytes le buf offset 1)
      else map_result (\<lambda>bs. ieee 8 23 (uint_of bs)) (get_bytes le buf offset 4))"

section \<open>The vertex decoder\<close>

text \<open>
  Assignment \<open>vertex[name] = value\<close> to a fresh object: the key \<open>__proto__\<close> creates no
  own property.
\<close>

definition vertex_set :: "vertex \<Rightarrow> string \<Rightarrow> jsnum \<Rightarrow> vertex" where
  "vertex_set v k x = (if k = ''__proto__'' then v else v(k \<mapsto> x))"

text \<open>The inner loop of \<open>parseBinaryVertices\<close>: one read for each entry of the layout.\<close>

fun read_entries ::
  "bool \<Rightarrow> bytes \<Rightarrow> nat \<Rightarrow> (string \<times> prop_info) list \<Rightarrow> vertex \<Rightarrow> error + vertex" where
  "read_entries le buf vertexOffset [] v = Inr v"
| "read_entries le buf vertexOffset ((name, prop) # es) v =
     (if name = ''vertexSize'' then read_entries le buf vertexOffset es v
      else
        (case readBinaryValue le buf (vertexOffset + p_offset prop) (p_type prop) of
           Inl e \<Rightarrow> Inl e
         | Inr x \<Rightarrow> read_entries le buf vertexOffset es (vertex_set v name x)))"

text \<open>
  The outer loop, from record \<open>i\<close> on, with \<open>k\<close> records still to decode. A read that
  throws ends the decode with the error: the records decoded so far are lost.
\<close>

fun binary_loop ::
  "bool \<Rightarrow> bytes \<Rightarrow> nat \<Rightarrow> (string \<times> prop_info) list \<times> nat \<Rightarrow> nat \<Rightarrow> nat
     \<Rightarrow> error + splat list" where
  "binary_loop le buf offset pm i 0 = Inr []"
| "binary_loop le buf offset pm i (Suc k) =
     (case read_entries le buf (offset + i * snd pm) (fst pm) Map.empty of
        Inl e \<Rightarrow> Inl e
      | Inr v \<Rightarrow>
          (case binary_loop le buf offset pm (Suc i) k of
             Inl e \<Rightarrow> Inl e
           | Inr vs \<Rightarrow> Inr (processVertex v # vs)))"

text \<open>The number of \<open>i = 0, 1, ...\<close> with \<open>i < n\<close>: none for \<open>NaN\<close> or a negative \<open>n\<close>.\<close>

definition loop_count :: "int option \<Rightarrow> nat" where
  "loop_count n = (case n of None \<Rightarrow> 0 | Some k \<Rightarrow> nat k)"

definition parseBinaryVertices ::
  "bool \<Rightarrow> bytes \<Rightarrow> nat \<Rightarrow> header \<Rightarrow> (string \<times> prop_info) list \<times> nat \<Rightarrow> error + splat list" where
  "parseBinaryVertices le buf offset h pm =
     binary_loop le buf offset pm 0 (loop_count (vertexCount h))"

text \<open>\<open>createVertex\<close>: the values are assigned to the properties position by position.\<close>

fun assign_values :: "jsnum list \<Rightarrow> property list \<Rightarrow> vertex \<Rightarrow> vertex" where
  "assign_values (x # xs) (p # ps) v = assign_values xs ps (vertex_set v (key_of (pname p)) x)"
| "assign_values _ _ v = v"

definition createVertex :: "jsnum list \<Rightarrow> property list \<Rightarrow> splat" where
  "createVertex vals props = processVertex (assign_values vals props Map.empty)"

text \<open>The loop of \<open>parseAsciiVertices\<close> over the lines it visits.\<close>

fun ascii_loop :: "string list \<Rightarrow> property list \<Rightarrow> splat list" where
  "ascii_loop [] props = []"
| "ascii_loop (l # ls) props =
     (let vals = map parseFloat (split_ws (trim l))
      in if 3 \<le> length vals then createVertex vals props # ascii_loop ls props
         else ascii_loop ls props)"

text \<open>
  The lines are those of the text after the header that do not trim to the empty
  string; the loop visits the first \<open>Math.min(lines.length, vertexCount)\<close> of them.
\<close>

definition ascii_lines :: "bytes \<Rightarrow> nat \<Rightarrow> string list" where
  "ascii_lines buf offset =
     filter (\<lambda>l. trim l \<noteq> []) (split_on newline (TextDecoder_decode (drop offset buf)))"

definition parseAsciiVertices :: "bytes \<Rightarrow> nat \<Rightarrow> header \<Rightarrow> splat list" where
  "parseAsciiVertices buf offset h =
     (let lines = ascii_lines buf offset
      in ascii_loop (take (min (length lines) (loop_count (vertexCount h))) lines)
           (properties h))"

definition parseVertices :: "bool \<Rightarrow> bytes \<Rightarrow> nat \<Rightarrow> header \<Rightarrow> error + splat list" where
  "parseVertices le buf offset h =
     (if format h = Some ''ascii'' then Inr (parseAsciiVertices buf offset h)
      else parseBinaryVertices le buf offset h (createPropertyMap (properties h)))"

section \<open>The column-store assembler: createGaussianSplatMesh\<close>

text \<open>
  The attribute arrays of the geometry and the user data of the mesh; the material and
  the scene objects are not part of the model. A store into a \<open>Float32Array\<close> converts
  the value to a number (the rounding to single precision is not represented).
\<close>

record mesh =
  attr_color :: "jsnum list"
  attr_position :: "jsnum list"
  attr_scale :: "jsnum list"
  attr_rotation :: "jsnum list"
  attr_opacity :: "jsnum list"
  attr_sh_dc :: "jsnum list"
  attr_sh_rest :: "jsnum list list"
  userData_vertexCount :: nat
  userData_format :: "string option"
  userData_properties :: "property list"

text \<open>An entry of an array of values: \<open>undefined\<close> out of range, or stored as such.\<close>

definition flat :: "jsval option \<Rightarrow> jsval" where
  "flat a = (case a of None \<Rightarrow> None | Some x \<Rightarrow> x)"

definition component :: "jsnum list \<Rightarrow> nat \<Rightarrow> jsnum" where
  "component xs i = to_number (js_index xs i)"

text \<open>The three entries of the array \<open>sh_rest_k_(k+2)\<close> for one vertex.\<close>

definition rest_triple :: "splat \<Rightarrow> nat \<Rightarrow> jsnum list" where
  "rest_triple v k = map (\<lambda>j. js_or_num (js_index (sh_rest v) (k + j)) (Fin 0)) [0, 1, 2]"

definition rgb_of_dc :: "jsnum \<Rightarrow> jsnum" where
  "rgb_of_dc d = js_add (Fin (1 / 2)) (js_mul (Fin SH_C0) d)"

definition createGaussianSplatMesh :: "splat list \<Rightarrow> header \<Rightarrow> mesh" where
  "createGaussianSplatMesh vertices h =
     \<lparr>attr_color =
        concat (map (\<lambda>v. map (\<lambda>j. rgb_of_dc (component (sh_dc v) j)) [0, 1, 2]) vertices),
      attr_position = concat (map (\<lambda>v. map (component (position v)) [0, 1, 2]) vertices),
      attr_scale = concat (map (\<lambda>v. map (component (scale v)) [0, 1, 2]) vertices),
      attr_rotation =
        concat (map (\<lambda>v. map (\<lambda>j. to_number (flat (js_index (rotation v) j)))
          [0, 1, 2, 3]) vertices),
      attr_opacity = map opacity vertices,
      attr_sh_dc = concat (map (\<lambda>v. map (component (sh_dc v)) [0, 1, 2]) vertices),
      attr_sh_rest =
        map (\<lambda>g. concat (map (\<lambda>v. rest_triple v (3 * g)) vertices)) [0..<9],
      userData_vertexCount = length vertices,
      userData_format = format h,
      userData_properties = properties h\<rparr>"

section \<open>The loader: parse\<close>

definition parse :: "bool \<Rightarrow> bytes \<Rightarrow> (error + mesh) \<times> bool" where
  "parse le buffer =
     (let (h, le') = parseHeader le buffer
      in (map_result (\<lambda>vs. createGaussianSplatMesh vs h)
            (parseVertices le' buffer (headerLength h) h), le'))"

section \<open>The shading model: evaluateSphericalHarmonics\<close>

text \<open>
  The function of the vertex shaders (both materials carry the same text). A shader
  \<open>float\<close> is modelled by a real number and a \<open>vec3\<close> by a triple; the per-vertex
  attributes the function reads are collected in a record.
\<close>

type_synonym vec3 = "real \<times> real \<times> real"

definition vec_x :: "vec3 \<Rightarrow> real" where "vec_x v = fst v"
definition vec_y :: "vec3 \<Rightarrow> real" where "vec_y v = fst (snd v)"
definition vec_z :: "vec3 \<Rightarrow> real" where "vec_z v = snd (snd v)"

record sh_attributes =
  sh_rest_0_2 :: vec3
  sh_rest_3_5 :: vec3
  sh_rest_6_8 :: vec3
  sh_rest_9_11 :: vec3
  sh_rest_12_14 :: vec3
  sh_rest_15_17 :: vec3
  sh_rest_18_20 :: vec3
  sh_rest_21_23 :: vec3
  sh_rest_24_26 :: vec3

text \<open>\<open>clamp(x, 0.0, 1.0)\<close> is \<open>min(max(x, 0.0), 1.0)\<close>, componentwise on a vector.\<close>

definition clamp01 :: "real \<Rightarrow> real" where
  "clamp01 x = min (max x 0) 1"

definition clamp_vec :: "vec3 \<Rightarrow> vec3" where
  "clamp_vec c = (clamp01 (vec_x c), clamp01 (vec_y c), clamp01 (vec_z c))"

definition SH_C1 :: real where
  "SH_C1 = 48860251190291987 / 10 ^ 17"

definition SH_C2a :: real where
  "SH_C2a = 10925484305920792 / 10 ^ 16"

definition SH_C2b :: real where
  "SH_C2b = 94617469575755997 / 10 ^ 17"

definition SH_C2c :: real where
  "SH_C2c = 54627421529603959 / 10 ^ 17"

text \<open>
  The terms added to one colour channel; \<open>sel\<close> selects the component of the attributes
  that belongs to the channel (\<open>x\<close> for red, \<open>y\<close> for green, \<open>z\<close> for blue).
\<close>

definition degree0 :: "(vec3 \<Rightarrow> real) \<Rightarrow> vec3 \<Rightarrow> real" where
  "degree0 sel dc = 1 / 2 + SH_C0 * sel dc"

definition degree1 :: "(vec3 \<Rightarrow> real) \<Rightarrow> sh_attributes \<Rightarrow> vec3 \<Rightarrow> real" where
  "degree1 sel a dir =
     - SH_C1 * vec_y dir * sel (sh_rest_0_2 a) +
     SH_C1 * vec_z dir * sel (sh_rest_3_5 a) +
     - SH_C1 * vec_x dir * sel (sh_rest_6_8 a)"

definition degree2 :: "(vec3 \<Rightarrow> real) \<Rightarrow> sh_attributes \<Rightarrow> vec3 \<Rightarrow> real" where
  "degree2 sel a dir =
     (let xx = vec_x dir * vec_x dir; yy = vec_y dir * vec_y dir; zz = vec_z dir * vec_z dir;
          xy = vec_x dir * vec_y dir; yz = vec_y dir * vec_z dir; xz = vec_x dir * vec_z dir
      in SH_C2a * xy * sel (sh_rest_9_11 a) +
         - SH_C2a * yz * sel (sh_rest_12_14 a) +
         SH_C2b * (2 * zz - xx - yy) * sel (sh_rest_15_17 a) +
         - SH_C2a * xz * sel (sh_rest_18_20 a) +
         SH_C2c * (xx - yy) * sel (sh_rest_21_23 a))"

definition evaluateSphericalHarmonics :: "sh_attributes \<Rightarrow> vec3 \<Rightarrow> vec3 \<Rightarrow> int \<Rightarrow> vec3" where
  "evaluateSphericalHarmonics a dir dc degree =
     (let color0 = (degree0 vec_x dc, degree0 vec_y dc, degree0 vec_z dc)
      in if degree < 1 then clamp_vec color0
         else
           (let color1 = (vec_x color0 + degree1 vec_x a dir, vec_y color0 + degree1 vec_y a dir,
                          vec_z color0 + degree1 vec_z a dir)
            in if degree < 2 then clamp_vec color1
               else (vec_x color1 + degree2 vec_x a dir, vec_y color1 + degree2 vec_y a dir,
                     vec_z color1 + degree2 vec_z a dir)))"

text \<open>A vector whose components all lie between 0 and 1.\<close>

definition in_unit_range :: "vec3 \<Rightarrow> bool" where
  "in_unit_range c =
     (0 \<le> vec_x c \<and> vec_x c \<le> 1 \<and> 0 \<le> vec_y c \<and> vec_y c \<le> 1 \<and> 0 \<le> vec_z c \<and> vec_z c \<le> 1)"

definition zero_attributes :: sh_attributes where
  "zero_attributes =
     \<lparr>sh_rest_0_2 = (0, 0, 0), sh_rest_3_5 = (0, 0, 0), sh_rest_6_8 = (0, 0, 0),
      sh_rest_9_11 = (0, 0, 0), sh_rest_12_14 = (0, 0, 0), sh_rest_15_17 = (0, 0, 0),
      sh_rest_18_20 = (0, 0, 0), sh_rest_21_23 = (0, 0, 0), sh_rest_24_26 = (0, 0, 0)\<rparr>"

section \<open>Vocabulary of the properties\<close>

text \<open>The lines of the decoded buffer, which the header loop visits in order.\<close>

definition header_lines :: "bytes \<Rightarrow> string list" where
  "header_lines buf = split_on newline (TextDecoder_decode buf)"

text \<open>A line that ends the header, and a line that sets the vertex count.\<close>

definition is_end_header :: "string \<Rightarrow> bool" where
  "is_end_header l = (trim l = ''end_header'')"

definition sets_vertex_count :: "string \<Rightarrow> bool" where
  "sets_vertex_count l =
     (js_index (split_on CHR '' '' (trim l)) 0 = Some ''element'' \<and>
      js_index (split_on CHR '' '' (trim l)) 1 = Some ''vertex'')"

text \<open>The pieces of a trimmed line, and the keys under which properties are stored.\<close>

definition tokens :: "string \<Rightarrow> string list" where
  "tokens l = split_ws (trim l)"

definition keys_of :: "property list \<Rightarrow> string list" where
  "keys_of props = map (\<lambda>p. key_of (pname p)) props"

text \<open>
  An entry of the layout whose read stays inside the buffer for a record at offset \<open>vo\<close>
  (the key \<open>vertexSize\<close> is not read), and an entry that ends within \<open>R\<close> bytes.
\<close>

definition fits :: "bytes \<Rightarrow> nat \<Rightarrow> string \<times> prop_info \<Rightarrow> bool" where
  "fits buf vo e =
     (fst e = ''vertexSize'' \<or> vo + p_offset (snd e) + getTypeSize (p_type (snd e)) \<le> length buf)"

definition bounded :: "nat \<Rightarrow> string \<times> prop_info \<Rightarrow> bool" where
  "bounded R e = (p_offset (snd e) + getTypeSize (p_type (snd e)) \<le> R)"

text \<open>The record size: the sum of the sizes of the declared properties.\<close>

definition record_size :: "property list \<Rightarrow> nat" where
  "record_size props = sum_list (map (\<lambda>p. getTypeSize (ptype p)) props)"

section \<open>Example files\<close>

text \<open>
  Small files on which the loader is evaluated: a header without \<open>end_header\<close>; a binary
  file whose header lines end in carriage return and line feed; one with a Latin-1 byte
  in a comment; a binary file with one byte after its only record, and its header alone;
  an ASCII file with a line of two numbers, a blank line and a line of three numbers for
  four declared properties; a binary file of one point with the 8-bit colour 255, 0, 0,
  and the raw vertex decoded from it.
\<close>

definition no_end_buffer :: bytes where
  "no_end_buffer = ''ply'' @ [newline] @ ''format ascii 1.0'' @ [newline]"

definition crlf :: string where
  "crlf = [char_of (13 :: nat), newline]"

definition crlf_header :: bytes where
  "crlf_header =
     ''ply'' @ crlf @ ''format binary_little_endian 1.0'' @ crlf @ ''element vertex 1'' @ crlf @
     ''property uchar red'' @ crlf @ ''end_header'' @ crlf"

definition crlf_buffer :: bytes where
  "crlf_buffer = crlf_header @ [char_of (255 :: nat)]"

definition latin1_header :: bytes where
  "latin1_header =
     ''ply'' @ [newline] @ ''format binary_little_endian 1.0'' @ [newline] @
     ''comment caf'' @ [char_of (0xE9 :: nat)] @ [newline] @
     ''element vertex 1'' @ [newline] @ ''property uchar red'' @ [newline] @
     ''end_header'' @ [newline]"

definition latin1_buffer :: bytes where
  "latin1_buffer = latin1_header @ [char_of (255 :: nat)]"

definition red_header :: "nat \<Rightarrow> header" where
  "red_header n =
     \<lparr>format = Some ''binary_little_endian'', vertexCount = Some 1,
      properties = [\<lparr>ptype = Some ''uchar'', pname = Some ''red''\<rparr>], headerLength = n\<rparr>"

definition lf_header :: bytes where
  "lf_header =
     ''ply'' @ [newline] @ ''format binary_little_endian 1.0'' @ [newline] @
     ''element vertex 1'' @ [newline] @ ''property uchar red'' @ [newline] @
     ''end_header'' @ [newline]"

definition trailing_buffer :: bytes where
  "trailing_buffer = lf_header @ [char_of (255 :: nat), char_of (7 :: nat)]"

definition ascii_header :: bytes where
  "ascii_header =
     ''ply'' @ [newline] @ ''format ascii 1.0'' @ [newline] @ ''element vertex 2'' @ [newline] @
     ''property float x'' @ [newline] @ ''property float y'' @ [newline] @
     ''property float z'' @ [newline] @ ''property float opacity'' @ [newline] @
     ''end_header'' @ [newline]"

definition ascii_buffer :: bytes where
  "ascii_buffer = ascii_header @ ''7 8'' @ [newline] @ [newline] @ ''1 2 3'' @ [newline]"

definition xyz_header :: header where
  "xyz_header =
     \<lparr>format = Some ''ascii'', vertexCount = Some 2,
      properties =
        [\<lparr>ptype = Some ''float'', pname = Some ''x''\<rparr>,
         \<lparr>ptype = Some ''float'', pname = Some ''y''\<rparr>,
         \<lparr>ptype = Some ''float'', pname = Some ''z''\<rparr>,
         \<lparr>ptype = Some ''float'', pname = Some ''opacity''\<rparr>],
      headerLength = length ascii_header\<rparr>"

definition rgb_header_bytes :: bytes where
  "rgb_header_bytes =
     ''ply'' @ [newline] @ ''format binary_little_endian 1.0'' @ [newline] @
     ''element vertex 1'' @ [newline] @ ''property uchar red'' @ [newline] @
     ''property uchar green'' @ [newline] @ ''property uchar blue'' @ [newline] @
     ''end_header'' @ [newline]"

definition rgb_buffer :: bytes where
  "rgb_buffer = rgb_header_bytes @ [char_of (255 :: nat), char_of (0 :: nat), char_of (0 :: nat)]"

definition rgb_header :: header where
  "rgb_header =
     \<lparr>format = Some ''binary_little_endian'', vertexCount = Some 1,
      properties =
        [\<lparr>ptype = Some ''uchar'', pname = Some ''red''\<rparr>,
         \<lparr>ptype = Some ''uchar'', pname = Some ''green''\<rparr>,
         \<lparr>ptype = Some ''uchar'', pname = Some ''blue''\<rparr>],
      headerLength = 124\<rparr>"

definition red_vertex :: vertex where
  "red_vertex = Map.empty(''red'' \<mapsto> Fin 255, ''green'' \<mapsto> Fin 0, ''blue'' \<mapsto> Fin 0)"

section \<open>Properties of processVertex\<close>

subsection \<open>Colour fallback\<close>

lemma not_truthy_iff: "(\<not> truthy a) = (a = None \<or> a = Some NaN \<or> a = Some (Fin 0))"
  by (cases a rule: truthy.cases) auto

lemma js_or_num_zero_iff: "js_eq (js_or_num a (Fin 0)) (Fin 0) = (\<not> truthy a)"
  by (cases a rule: truthy.cases) (auto simp: js_or_num_def js_eq_def)

lemma dc_all_zero_iff:
  "dc_all_zero v = (\<not> truthy (v ''f_dc_0'') \<and> \<not> truthy (v ''f_dc_1'') \<and> \<not> truthy (v ''f_dc_2''))"
  by (simp add: dc_all_zero_def dc_names_def not_truthy_iff)

lemma sh_dc_processVertex:
  "sh_dc (processVertex v) =
     (if dc_all_zero v then
        (if all_present v [''red'', ''green'', ''blue'']
         then map (\<lambda>k. rgb8_to_dc (v k)) [''red'', ''green'', ''blue'']
         else if all_present v [''r'', ''g'', ''b'']
         then map (\<lambda>k. rgb_to_dc (v k)) [''r'', ''g'', ''b'']
         else [Fin (1 / 2), Fin 0, Fin (- (1 / 2))])
      else map (\<lambda>k. js_or_num (v k) (Fin 0)) dc_names)"
  by (simp add: processVertex_def Let_def js_or_num_zero_iff dc_all_zero_iff all_present_def dc_names_def)

text \<open>
  Claim C3. The degree-0 colour of a decoded record is resolved in a fixed order. Unless
  all three \<open>f_dc\<close> fields are absent, \<open>NaN\<close> or zero, the result is the \<open>f_dc\<close> triple
  (a falsy component reading as zero). Otherwise, if \<open>red\<close>, \<open>green\<close> and \<open>blue\<close> are all
  assigned, it is the inverse SH-DC encoding of the 8-bit colour; otherwise, if \<open>r\<close>, \<open>g\<close>
  and \<open>b\<close> are all assigned, that of the normalized colour; otherwise the fixed default
  \<open>[0.5, 0.0, -0.5]\<close>.
\<close>

theorem colorDC_fallback_order:
  "(\<not> dc_all_zero v \<longrightarrow>
      sh_dc (processVertex v) = map (\<lambda>k. js_or_num (v k) (Fin 0)) dc_names) \<and>
   (dc_all_zero v \<and> all_present v [''red'', ''green'', ''blue''] \<longrightarrow>
      sh_dc (processVertex v) =
        map (\<lambda>k. js_div (js_sub (js_div (to_number (v k)) (Fin 255)) (Fin (1 / 2))) (Fin SH_C0))
          [''red'', ''green'', ''blue'']) \<and>
   (dc_all_zero v \<and> \<not> all_present v [''red'', ''green'', ''blue''] \<and>
    all_present v [''r'', ''g'', ''b''] \<longrightarrow>
      sh_dc (processVertex v) =
        map (\<lambda>k. js_div (js_sub (to_number (v k)) (Fin (1 / 2))) (Fin SH_C0)) [''r'', ''g'', ''b'']) \<and>
   (dc_all_zero v \<and> \<not> all_present v [''red'', ''green'', ''blue''] \<and>
    \<not> all_present v [''r'', ''g'', ''b''] \<longrightarrow>
      sh_dc (processVertex v) = [Fin (1 / 2), Fin 0, Fin (- (1 / 2))])"
  by (simp add: sh_dc_processVertex rgb8_to_dc_def rgb_to_dc_def)


text \<open>One vertex for each of the four branches.\<close>

theorem colorDC_fallback_order_witness:
  "sh_dc (processVertex (Map.empty(''f_dc_0'' \<mapsto> Fin 2, ''red'' \<mapsto> Fin 255))) = [Fin 2, Fin 0, Fin 0] \<and>
   sh_dc (processVertex (Map.empty(''red'' \<mapsto> Fin 255, ''green'' \<mapsto> Fin 0, ''blue'' \<mapsto> Fin 0,
        ''r'' \<mapsto> Fin 1, ''g'' \<mapsto> Fin 1, ''b'' \<mapsto> Fin 1))) =
     [Fin ((1 / 2) / SH_C0), Fin (- (1 / 2) / SH_C0), Fin (- (1 / 2) / SH_C0)] \<and>
   sh_dc (processVertex (Map.empty(''f_dc_0'' \<mapsto> Fin 0, ''red'' \<mapsto> Fin 255,
        ''r'' \<mapsto> Fin 1, ''g'' \<mapsto> Fin (1 / 2), ''b'' \<mapsto> Fin 0))) =
     [Fin ((1 / 2) / SH_C0), Fin 0, Fin (- (1 / 2) / SH_C0)] \<and>
   sh_dc (processVertex (Map.empty(''x'' \<mapsto> Fin 1))) = [Fin (1 / 2), Fin 0, Fin (- (1 / 2))]"
  using colorDC_fallback_order [of "Map.empty(''f_dc_0'' \<mapsto> Fin 2, ''red'' \<mapsto> Fin 255)"]
    colorDC_fallback_order [of "Map.empty(''red'' \<mapsto> Fin 255, ''green'' \<mapsto> Fin 0, ''blue'' \<mapsto> Fin 0,
        ''r'' \<mapsto> Fin 1, ''g'' \<mapsto> Fin 1, ''b'' \<mapsto> Fin 1)"]
    colorDC_fallback_order [of "Map.empty(''f_dc_0'' \<mapsto> Fin 0, ''red'' \<mapsto> Fin 255,
        ''r'' \<mapsto> Fin 1, ''g'' \<mapsto> Fin (1 / 2), ''b'' \<mapsto> Fin 0)"]
    colorDC_fallback_order [of "Map.empty(''x'' \<mapsto> Fin 1)"]
  by (simp add: dc_all_zero_def dc_names_def all_present_def js_or_num_def js_sub_def SH_C0_def)

subsection \<open>The range of the exponential\<close>

text \<open>
  Bounds on the real exponential from its Taylor polynomials: \<open>exp (11/16) \<le> 2 \<le> exp (7/10)\<close>.
  They place the arguments up to 700 in absolute value inside the range of doubles, the
  arguments from 720 on beyond the overflow bound, and the exponentials of the arguments
  down from -760 at or below the underflow bound.
\<close>

lemma exp_11_16_le: "exp (11 / 16 :: real) \<le> 2"
proof -
  have "exp (1 / 64 :: real) \<le> 1 + 1 / 64 + (1 / 64)\<^sup>2"
    by (rule exp_bound) simp_all
  then have b: "exp (1 / 64 :: real) \<le> 4161 / 4096"
    by (simp add: power2_eq_square)
  have "exp (11 / 16 :: real) = exp (of_nat 44 * (1 / 64))"
    by simp
  also have "\<dots> = exp (1 / 64) ^ 44"
    by (rule exp_of_nat_mult)
  also have "\<dots> \<le> (4161 / 4096) ^ 44"
    using b by (intro power_mono) simp_all
  also have "\<dots> \<le> (2 :: real)"
  proof -
    have "(4161 :: real) ^ 44 \<le> 2 * 4096 ^ 44" by simp
    then show ?thesis by (simp add: power_divide)
  qed
  finally show ?thesis .
qed

lemma exp_7_10_ge: "2 \<le> exp (7 / 10 :: real)"
proof -
  have "1 + 7 / 40 + (7 / 40)\<^sup>2 / 2 \<le> exp (7 / 40 :: real)"
    by (rule exp_lower_Taylor_quadratic) simp
  then have b: "3809 / 3200 \<le> exp (7 / 40 :: real)"
    by (simp add: power2_eq_square)
  have "(2 :: real) \<le> (3809 / 3200) ^ 4"
    by (simp add: power_divide)
  also have "\<dots> \<le> exp (7 / 40) ^ 4"
    using b by (intro power_mono) simp_all
  also have "\<dots> = exp (of_nat 4 * (7 / 40 :: real))"
    by (rule exp_of_nat_mult [symmetric])
  also have "\<dots> = exp (7 / 10 :: real)"
    by simp
  finally show ?thesis .
qed

lemma exp_upper: "x \<le> 700 \<Longrightarrow> exp (x :: real) \<le> 2 ^ 1019"
proof -
  assume "x \<le> 700"
  then have "x \<le> of_nat 1019 * (11 / 16)" by simp
  then have "exp x \<le> exp (of_nat 1019 * (11 / 16 :: real))" by simp
  also have "\<dots> = exp (11 / 16) ^ 1019"
    by (rule exp_of_nat_mult)
  also have "\<dots> \<le> 2 ^ 1019"
    using exp_11_16_le by (intro power_mono) simp_all
  finally show ?thesis .
qed

lemma exp_lower: "of_nat n * (7 / 10) \<le> x \<Longrightarrow> 2 ^ n \<le> exp (x :: real)"
proof -
  assume a: "of_nat n * (7 / 10) \<le> x"
  have "(2 :: real) ^ n \<le> exp (7 / 10) ^ n"
    using exp_7_10_ge by (intro power_mono) simp_all
  also have "\<dots> = exp (of_nat n * (7 / 10 :: real))"
    by (rule exp_of_nat_mult [symmetric])
  also have "\<dots> \<le> exp x"
    using a by simp
  finally show ?thesis .
qed

lemma below_overflow: "(2 :: real) ^ 1019 < overflow_bound"
proof -
  have "(2 :: real) ^ 970 \<le> 2 ^ 1019" by (rule power_increasing) simp_all
  then have "(2 :: real) ^ 1019 + 2 ^ 970 \<le> 2 * 2 ^ 1019" by simp
  also have "\<dots> = 2 ^ 1020" by simp
  also have "\<dots> < (2 :: real) ^ 1024" by (rule power_strict_increasing) simp_all
  finally show ?thesis by (simp add: overflow_bound_def)
qed

lemma above_overflow: "overflow_bound \<le> (2 :: real) ^ 1028"
proof -
  have "overflow_bound \<le> (2 :: real) ^ 1024" by (simp add: overflow_bound_def)
  also have "\<dots> \<le> 2 ^ 1028" by (rule power_increasing) simp_all
  finally show ?thesis .
qed

lemma exp_no_overflow: "x \<le> 700 \<Longrightarrow> exp x < overflow_bound"
  using exp_upper [of x] below_overflow by simp

lemma exp_overflow: "720 \<le> x \<Longrightarrow> overflow_bound \<le> exp x"
proof -
  assume "720 \<le> x"
  then have "of_nat 1028 * (7 / 10) \<le> x" by simp
  then have "(2 :: real) ^ 1028 \<le> exp x" by (rule exp_lower)
  with above_overflow show ?thesis by simp
qed

lemma exp_no_underflow: "- 700 \<le> x \<Longrightarrow> underflow_bound < exp x"
proof -
  assume "- 700 \<le> x"
  then have "exp (- x) \<le> 2 ^ 1019" by (intro exp_upper) simp
  also have "\<dots> < (2 :: real) ^ 1075" by (rule power_strict_increasing) simp_all
  finally have "exp (- x) < 2 ^ 1075" .
  then have "1 / 2 ^ 1075 < 1 / exp (- x)"
    by (intro divide_strict_left_mono) simp_all
  then show ?thesis
    by (simp add: underflow_bound_def exp_minus inverse_eq_divide)
qed

lemma exp_underflow: "x \<le> - 760 \<Longrightarrow> exp x \<le> underflow_bound"
proof -
  assume "x \<le> - 760"
  then have "of_nat 1085 * (7 / 10) \<le> - x" by simp
  then have "(2 :: real) ^ 1085 \<le> exp (- x)" by (rule exp_lower)
  moreover have "(2 :: real) ^ 1075 \<le> 2 ^ 1085" by (rule power_increasing) simp_all
  ultimately have "(2 :: real) ^ 1075 \<le> exp (- x)" by simp
  then have "1 / exp (- x) \<le> 1 / 2 ^ 1075"
    by (intro divide_left_mono) simp_all
  then show ?thesis
    by (simp add: underflow_bound_def exp_minus inverse_eq_divide)
qed

lemma underflow_less_overflow: "underflow_bound < overflow_bound"
  using exp_no_underflow [of 0] exp_no_overflow [of 0] by simp

lemma exp_double_in_range:
  "underflow_bound < exp x \<Longrightarrow> exp x < overflow_bound \<Longrightarrow> exp_double x = Fin (exp x)"
  by (simp add: exp_double_def)

lemma exp_double_mid: "- 700 \<le> x \<Longrightarrow> x \<le> 700 \<Longrightarrow> exp_double x = Fin (exp x)"
  by (simp add: exp_double_in_range exp_no_underflow exp_no_overflow)

lemma exp_double_over: "overflow_bound \<le> exp x \<Longrightarrow> exp_double x = PosInf"
  by (simp add: exp_double_def)

lemma exp_double_under: "exp x \<le> underflow_bound \<Longrightarrow> exp_double x = Fin 0"
  using underflow_less_overflow by (simp add: exp_double_def)

lemma exp_double_cases:
  "exp_double x = PosInf \<and> overflow_bound \<le> exp x \<or>
   exp_double x = Fin 0 \<and> exp x \<le> underflow_bound \<or>
   exp_double x = Fin (exp x) \<and> underflow_bound < exp x \<and> exp x < overflow_bound"
  using underflow_less_overflow by (auto simp: exp_double_def)

lemma js_exp_nonneg: "a \<noteq> NaN \<Longrightarrow> js_le (Fin 0) (js_exp a)"
proof (cases a)
  case (Fin x)
  then show ?thesis
    using exp_double_cases [of x] by (auto simp: js_le_def)
qed (simp_all add: js_le_def)

lemma js_exp_pos_or_zero:
  "a \<noteq> NaN \<Longrightarrow>
   js_less (Fin 0) (js_exp a) \<or>
   js_exp a = Fin 0 \<and> (a = NegInf \<or> (\<exists>x. a = Fin x \<and> exp x \<le> underflow_bound))"
proof (cases a)
  case (Fin x)
  then show ?thesis
    using exp_double_cases [of x] by auto
qed simp_all

subsection \<open>Scale\<close>

lemma truthy_not_NaN: "truthy a \<Longrightarrow> the a \<noteq> NaN"
  by (cases a rule: truthy.cases) simp_all

lemma raw_scale_cases:
  "raw_scale v f =
     (if truthy (v (fst f)) then the (v (fst f))
      else if truthy (v (snd f)) then the (v (snd f)) else Fin (1 / 100))"
  by (simp add: raw_scale_def js_or_num_def js_or_def)

lemma raw_scale_not_NaN: "raw_scale v f \<noteq> NaN"
  by (simp add: raw_scale_cases truthy_not_NaN)

lemma scale_processVertex:
  "scale (processVertex v) = map (\<lambda>f. js_exp (raw_scale v f)) scale_fields"
  by (simp add: processVertex_def Let_def)

lemma scale_nth:
  "i < 3 \<Longrightarrow> scale (processVertex v) ! i = js_exp (raw_scale v (scale_fields ! i))"
  unfolding scale_processVertex by (rule nth_map) (simp add: scale_fields_def)

lemma exp_double_default: "exp_double (1 / 100) = Fin (exp (1 / 100))"
  by (simp add: exp_double_mid)

lemma exp_double_zero: "exp_double 0 = Fin 1"
  using exp_double_mid [of 0] by simp

text \<open>
  A raw scale of \<open>-Infinity\<close> is truthy and decodes to \<open>Math.exp(-Infinity) = 0\<close>, and a
  raw scale of -800 decodes to 0 as well, since the exponential underflows: neither is
  positive. A raw scale of exactly 0 is falsy and decodes to \<open>e^0.01\<close>, not to \<open>e^0\<close>.
\<close>

theorem scale_counterexample:
  "\<not> js_less (Fin 0) (scale (processVertex (Map.empty(''scale_0'' \<mapsto> NegInf))) ! 0) \<and>
   \<not> js_less (Fin 0) (scale (processVertex (Map.empty(''scale_0'' \<mapsto> Fin (- 800)))) ! 0) \<and>
   scale (processVertex (Map.empty(''scale_0'' \<mapsto> Fin 0))) ! 0 \<noteq> js_exp (Fin 0)"
proof -
  have "exp_double (- 800) = Fin 0"
    by (rule exp_double_under) (simp add: exp_underflow)
  then show ?thesis
    by (simp add: scale_processVertex scale_fields_def raw_scale_cases exp_double_default
        exp_double_zero)
qed

text \<open>
  Claim C4, amended. There are three decoded scale components. Each is \<open>Math.exp\<close> of the
  value \<open>r\<close> taken for it: the primary field if it is truthy, else the alternative field
  if that is truthy, else \<open>0.01\<close>, which gives \<open>e^0.01\<close>. For a finite \<open>r\<close> between -700 and
  700 the component is \<open>exp r\<close>, which is positive; for \<open>r\<close> from 720 on it is
  \<open>+Infinity\<close>; for \<open>r\<close> down from -760, and for \<open>-Infinity\<close>, it is 0. A component is
  never negative and never \<open>NaN\<close>, and it is positive unless \<open>r\<close> is \<open>-Infinity\<close> or the
  exponential of \<open>r\<close> underflows.
\<close>

theorem scale_exp_nonneg:
  "length (scale (processVertex v)) = 3 \<and>
   (\<forall>i < 3. let f = scale_fields ! i; s = scale (processVertex v) ! i; r = raw_scale v f in
      s = js_exp r \<and>
      (truthy (v (fst f)) \<longrightarrow> r = the (v (fst f))) \<and>
      (\<not> truthy (v (fst f)) \<and> truthy (v (snd f)) \<longrightarrow> r = the (v (snd f))) \<and>
      (\<not> truthy (v (fst f)) \<and> \<not> truthy (v (snd f)) \<longrightarrow> s = Fin (exp (1 / 100))) \<and>
      (\<forall>x. r = Fin x \<and> - 700 \<le> x \<and> x \<le> 700 \<longrightarrow> s = Fin (exp x) \<and> 0 < exp x) \<and>
      (\<forall>x. r = Fin x \<and> x \<le> - 760 \<longrightarrow> s = Fin 0) \<and>
      (\<forall>x. r = Fin x \<and> 720 \<le> x \<longrightarrow> s = PosInf) \<and>
      (r = NegInf \<longrightarrow> s = Fin 0) \<and>
      js_le (Fin 0) s \<and>
      (js_less (Fin 0) s \<or>
       s = Fin 0 \<and> (r = NegInf \<or> (\<exists>x. r = Fin x \<and> exp x \<le> underflow_bound))))"
proof -
  have len: "length (scale (processVertex v)) = 3"
    by (simp add: scale_processVertex scale_fields_def)
  have "let f = scale_fields ! i; s = scale (processVertex v) ! i; r = raw_scale v f in
      s = js_exp r \<and>
      (truthy (v (fst f)) \<longrightarrow> r = the (v (fst f))) \<and>
      (\<not> truthy (v (fst f)) \<and> truthy (v (snd f)) \<longrightarrow> r = the (v (snd f))) \<and>
      (\<not> truthy (v (fst f)) \<and> \<not> truthy (v (snd f)) \<longrightarrow> s = Fin (exp (1 / 100))) \<and>
      (\<forall>x. r = Fin x \<and> - 700 \<le> x \<and> x \<le> 700 \<longrightarrow> s = Fin (exp x) \<and> 0 < exp x) \<and>
      (\<forall>x. r = Fin x \<and> x \<le> - 760 \<longrightarrow> s = Fin 0) \<and>
      (\<forall>x. r = Fin x \<and> 720 \<le> x \<longrightarrow> s = PosInf) \<and>
      (r = NegInf \<longrightarrow> s = Fin 0) \<and>
      js_le (Fin 0) s \<and>
      (js_less (Fin 0) s \<or>
       s = Fin 0 \<and> (r = NegInf \<or> (\<exists>x. r = Fin x \<and> exp x \<le> underflow_bound)))"
    if i: "i < 3" for i
  proof -
    define f where "f = scale_fields ! i"
    define r where "r = raw_scale v f"
    have s: "scale (processVertex v) ! i = js_exp r"
      using i by (simp add: scale_nth f_def r_def)
    have nn: "r \<noteq> NaN" by (simp add: r_def raw_scale_not_NaN)
    have c1: "truthy (v (fst f)) \<longrightarrow> r = the (v (fst f))"
      and c2: "\<not> truthy (v (fst f)) \<and> truthy (v (snd f)) \<longrightarrow> r = the (v (snd f))"
      and c3: "\<not> truthy (v (fst f)) \<and> \<not> truthy (v (snd f)) \<longrightarrow> js_exp r = Fin (exp (1 / 100))"
      by (simp_all add: r_def raw_scale_cases exp_double_default)
    have c4: "\<forall>x. r = Fin x \<and> - 700 \<le> x \<and> x \<le> 700 \<longrightarrow> js_exp r = Fin (exp x) \<and> 0 < exp x"
      by (auto simp: exp_double_mid)
    have c5: "\<forall>x. r = Fin x \<and> x \<le> - 760 \<longrightarrow> js_exp r = Fin 0"
      by (auto simp: exp_double_under exp_underflow)
    have c6: "\<forall>x. r = Fin x \<and> 720 \<le> x \<longrightarrow> js_exp r = PosInf"
      by (auto simp: exp_double_over exp_overflow)
    have c7: "r = NegInf \<longrightarrow> js_exp r = Fin 0"
      by simp
    note c8 = js_exp_nonneg [OF nn] and c9 = js_exp_pos_or_zero [OF nn]
    show ?thesis
      unfolding Let_def f_def [symmetric] r_def [symmetric] s
      using c1 c2 c3 c4 c5 c6 c7 c8 c9 by blast
  qed
  with len show ?thesis by blast
qed

text \<open>Two vertices that between them meet every case.\<close>

theorem scale_exp_nonneg_witness:
  "scale (processVertex (Map.empty(''scale_0'' \<mapsto> Fin (1 / 10), ''scale_y'' \<mapsto> NegInf,
       ''scale_z'' \<mapsto> Fin (- 800)))) = [Fin (exp (1 / 10)), Fin 0, Fin 0] \<and>
   scale (processVertex (Map.empty(''scale_x'' \<mapsto> Fin 800))) =
     [PosInf, Fin (exp (1 / 100)), Fin (exp (1 / 100))]"
proof -
  let ?v = "Map.empty(''scale_0'' \<mapsto> Fin (1 / 10), ''scale_y'' \<mapsto> NegInf,
       ''scale_z'' \<mapsto> Fin (- 800 :: real))"
  let ?w = "Map.empty(''scale_x'' \<mapsto> Fin (800 :: real))"
  have r: "raw_scale ?v (scale_fields ! 0) = Fin (1 / 10)" "raw_scale ?v (scale_fields ! 1) = NegInf"
    "raw_scale ?v (scale_fields ! 2) = Fin (- 800)" "raw_scale ?w (scale_fields ! 0) = Fin 800"
    by (simp_all add: raw_scale_cases scale_fields_def)
  have t: "\<not> truthy (?w (fst (scale_fields ! 1)))" "\<not> truthy (?w (snd (scale_fields ! 1)))"
    "\<not> truthy (?w (fst (scale_fields ! 2)))" "\<not> truthy (?w (snd (scale_fields ! 2)))"
    by (simp_all add: scale_fields_def)
  have mid: "scale (processVertex w) ! i = Fin (exp x)"
    if "i < 3" "raw_scale w (scale_fields ! i) = Fin x" "- 700 \<le> x" "x \<le> 700" for w i x
    using scale_exp_nonneg [of w] that unfolding Let_def by blast
  have under: "scale (processVertex w) ! i = Fin 0"
    if "i < 3" "raw_scale w (scale_fields ! i) = Fin x" "x \<le> - 760" for w i x
    using scale_exp_nonneg [of w] that unfolding Let_def by blast
  have over: "scale (processVertex w) ! i = PosInf"
    if "i < 3" "raw_scale w (scale_fields ! i) = Fin x" "720 \<le> x" for w i x
    using scale_exp_nonneg [of w] that unfolding Let_def by blast
  have neg: "scale (processVertex w) ! i = Fin 0"
    if "i < 3" "raw_scale w (scale_fields ! i) = NegInf" for w i
    using scale_exp_nonneg [of w] that unfolding Let_def by blast
  have dflt: "scale (processVertex w) ! i = Fin (exp (1 / 100))"
    if "i < 3" "\<not> truthy (w (fst (scale_fields ! i)))" "\<not> truthy (w (snd (scale_fields ! i)))"
    for w i
    using scale_exp_nonneg [of w] that unfolding Let_def by blast
  have v0: "scale (processVertex ?v) ! 0 = Fin (exp (1 / 10))"
    by (rule mid [OF _ r(1)]) simp_all
  have v1: "scale (processVertex ?v) ! 1 = Fin 0"
    by (rule neg [OF _ r(2)]) simp
  have v2: "scale (processVertex ?v) ! 2 = Fin 0"
    by (rule under [OF _ r(3)]) simp_all
  have w0: "scale (processVertex ?w) ! 0 = PosInf"
    by (rule over [OF _ r(4)]) simp_all
  have w1: "scale (processVertex ?w) ! 1 = Fin (exp (1 / 100))"
    by (rule dflt [OF _ t(1) t(2)]) simp
  have w2: "scale (processVertex ?w) ! 2 = Fin (exp (1 / 100))"
    by (rule dflt [OF _ t(3) t(4)]) simp
  have three: "xs = [xs ! 0, xs ! 1, xs ! 2]" if "length xs = 3" for xs :: "jsnum list"
    using that by (cases xs; cases "tl xs"; cases "tl (tl xs)") auto
  have "scale (processVertex ?v) = [Fin (exp (1 / 10)), Fin 0, Fin 0]"
    using three [OF scale_exp_nonneg [of ?v, THEN conjunct1]] v0 v1 v2 by simp
  moreover have "scale (processVertex ?w) = [PosInf, Fin (exp (1 / 100)), Fin (exp (1 / 100))]"
    using three [OF scale_exp_nonneg [of ?w, THEN conjunct1]] w0 w1 w2 by simp
  ultimately show ?thesis by simp
qed

lemma raw_scale_forget:
  "\<not> truthy (v k) \<Longrightarrow> raw_scale (v(k := None)) f = raw_scale v f"
  by (simp add: raw_scale_cases)

text \<open>
  With \<open>scale_0 = 0\<close> and \<open>scale_x = 2\<close> the zero is skipped and the alternative name
  supplies the value: the component is \<open>e^2\<close>, not \<open>e^0.01\<close>.
\<close>

theorem zero_scale_counterexample:
  "scale (processVertex (Map.empty(''scale_0'' \<mapsto> Fin 0, ''scale_x'' \<mapsto> Fin 2))) ! 0 = Fin (exp 2) \<and>
   scale (processVertex (Map.empty(''scale_0'' \<mapsto> Fin 0, ''scale_x'' \<mapsto> Fin 2))) ! 0 \<noteq>
     Fin (exp (1 / 100))"
proof -
  have "exp_double 2 = Fin (exp 2)"
    by (rule exp_double_mid) simp_all
  then show ?thesis
    by (simp add: scale_processVertex scale_fields_def raw_scale_cases)
qed

text \<open>
  Claim C10, amended. A scale field that is present with raw value exactly 0 is treated
  as an absent one: removing it from the vertex leaves the decoded scale unchanged. The
  other name of the component is consulted as for an absent field: if it is truthy the
  component is its exponential, and if both names are falsy (absent, \<open>NaN\<close> or 0) the
  \<open>0.01\<close> fallback applies and the component is \<open>e^0.01\<close>, not \<open>e^0\<close>.
\<close>

theorem zero_scale_as_absent:
  assumes "i < 3"
    and "k = fst (scale_fields ! i) \<or> k = snd (scale_fields ! i)"
    and "v k = Some (Fin 0)"
  shows "scale (processVertex v) = scale (processVertex (v(k := None))) \<and>
     (\<not> truthy (v (fst (scale_fields ! i))) \<and> \<not> truthy (v (snd (scale_fields ! i))) \<longrightarrow>
        scale (processVertex v) ! i = Fin (exp (1 / 100)) \<and>
        scale (processVertex v) ! i \<noteq> js_exp (Fin 0)) \<and>
     (k = fst (scale_fields ! i) \<and> truthy (v (snd (scale_fields ! i))) \<longrightarrow>
        scale (processVertex v) ! i = js_exp (the (v (snd (scale_fields ! i))))) \<and>
     (k = snd (scale_fields ! i) \<and> truthy (v (fst (scale_fields ! i))) \<longrightarrow>
        scale (processVertex v) ! i = js_exp (the (v (fst (scale_fields ! i)))))"
proof -
  have nt: "\<not> truthy (v k)" using assms(3) by simp
  then have a: "scale (processVertex v) = scale (processVertex (v(k := None)))"
    by (simp add: scale_processVertex raw_scale_forget)
  have s: "scale (processVertex v) ! i = js_exp (raw_scale v (scale_fields ! i))"
    using assms(1) by (rule scale_nth)
  have b: "scale (processVertex v) ! i = Fin (exp (1 / 100)) \<and>
        scale (processVertex v) ! i \<noteq> js_exp (Fin 0)"
    if "\<not> truthy (v (fst (scale_fields ! i)))" "\<not> truthy (v (snd (scale_fields ! i)))"
    using that by (simp add: s raw_scale_cases exp_double_default exp_double_zero)
  have c: "scale (processVertex v) ! i = js_exp (the (v (snd (scale_fields ! i))))"
    if "k = fst (scale_fields ! i)" "truthy (v (snd (scale_fields ! i)))"
    using that nt by (simp add: s raw_scale_cases)
  have d: "scale (processVertex v) ! i = js_exp (the (v (fst (scale_fields ! i))))"
    if "truthy (v (fst (scale_fields ! i)))"
    using that by (simp add: s raw_scale_cases)
  from a b c d show ?thesis by blast
qed

theorem zero_scale_as_absent_witness:
  "scale (processVertex (Map.empty(''scale_1'' \<mapsto> Fin 0, ''x'' \<mapsto> Fin 3))) =
     scale (processVertex (Map.empty(''x'' \<mapsto> Fin 3))) \<and>
   scale (processVertex (Map.empty(''scale_1'' \<mapsto> Fin 0, ''x'' \<mapsto> Fin 3))) ! 1 =
     Fin (exp (1 / 100)) \<and>
   scale (processVertex (Map.empty(''scale_0'' \<mapsto> Fin 0, ''scale_x'' \<mapsto> Fin 2))) ! 0 =
     Fin (exp 2)"
proof -
  let ?v = "Map.empty(''scale_1'' \<mapsto> Fin 0, ''x'' \<mapsto> Fin (3::real))"
  let ?w = "Map.empty(''scale_0'' \<mapsto> Fin 0, ''scale_x'' \<mapsto> Fin (2::real))"
  have e: "?v(''scale_1'' := None) = Map.empty(''x'' \<mapsto> Fin 3)"
    by (rule ext) simp
  have f1: "fst (scale_fields ! 1) = ''scale_1''" "snd (scale_fields ! 1) = ''scale_y''"
    "fst (scale_fields ! 0) = ''scale_0''" "snd (scale_fields ! 0) = ''scale_x''"
    by (simp_all add: scale_fields_def)
  have i1: "(1::nat) < 3" and i0: "(0::nat) < 3" by simp_all
  have k1: "''scale_1'' = fst (scale_fields ! 1) \<or> ''scale_1'' = snd (scale_fields ! 1)"
    and k0: "''scale_0'' = fst (scale_fields ! 0) \<or> ''scale_0'' = snd (scale_fields ! 0)"
    using f1 by simp_all
  have z1: "?v ''scale_1'' = Some (Fin 0)" and z0: "?w ''scale_0'' = Some (Fin 0)" by simp_all
  note inst1 = zero_scale_as_absent [of 1 "''scale_1''" ?v, OF i1 k1 z1]
  note inst0 = zero_scale_as_absent [of 0 "''scale_0''" ?w, OF i0 k0 z0]
  have t1: "\<not> truthy (?v (fst (scale_fields ! 1)))" "\<not> truthy (?v (snd (scale_fields ! 1)))"
    using f1 by simp_all
  have t0: "''scale_0'' = fst (scale_fields ! 0)" "truthy (?w (snd (scale_fields ! 0)))"
    "the (?w (snd (scale_fields ! 0))) = Fin 2"
    using f1 by simp_all
  from inst1 have "scale (processVertex ?v) = scale (processVertex (?v(''scale_1'' := None)))"
    by (rule conjunct1)
  then have v1: "scale (processVertex ?v) = scale (processVertex (Map.empty(''x'' \<mapsto> Fin 3)))"
    by (simp only: e)
  from inst1 t1 have v2: "scale (processVertex ?v) ! 1 = Fin (exp (1 / 100))"
    by blast
  from inst0 t0(1,2) have "scale (processVertex ?w) ! 0 = js_exp (the (?w (snd (scale_fields ! 0))))"
    by blast
  then have w: "scale (processVertex ?w) ! 0 = Fin (exp 2)"
    by (simp only: t0(3) js_exp.simps) (simp add: exp_double_mid)
  from v1 v2 have v: "scale (processVertex ?v) = scale (processVertex (Map.empty(''x'' \<mapsto> Fin 3))) \<and>
      scale (processVertex ?v) ! 1 = Fin (exp (1 / 100))"
    by (rule conjI)
  from v w show ?thesis by (intro conjI) (elim conjE, assumption)+
qed

subsection \<open>Opacity\<close>

lemma opacity_processVertex:
  "opacity (processVertex v) =
     js_max (Fin 0) (js_min (Fin 1)
       (js_or_num (js_or (Some (sigmoid_opacity v)) (v ''alpha'')) (Fin (8 / 10))))"
  by (simp add: processVertex_def Let_def)

lemma sigmoid_real_bounds: "0 < 1 / (1 + exp (- x :: real))" "1 / (1 + exp (- x :: real)) < 1"
proof -
  have "0 < exp (- x)" by simp
  then have gt: "1 < 1 + exp (- x)" by simp
  then have pos: "0 < 1 + exp (- x)" by linarith
  then show "0 < 1 / (1 + exp (- x))" by simp
  from gt pos show "1 / (1 + exp (- x)) < 1" by (simp only: divide_less_eq_1_pos)
qed

lemma one_plus_exp_nz: "1 + exp (y :: real) \<noteq> 0"
proof -
  have "0 < exp y" by simp
  then show ?thesis by linarith
qed

text \<open>The sigmoid of a finite raw opacity, by the three outcomes of the exponential.\<close>

lemma sigmoid_opacity_Fin:
  assumes "v ''opacity'' = Some (Fin x)"
  shows "sigmoid_opacity v =
     (if overflow_bound \<le> exp (- x) then Fin 0
      else if exp (- x) \<le> underflow_bound then Fin 1
      else Fin (1 / (1 + exp (- x))))"
  using assms by (simp add: sigmoid_opacity_def exp_double_def one_plus_exp_nz)

lemma sigmoid_falsy_iff: "(\<not> truthy (Some (sigmoid_opacity v))) = opacity_falls_back v"
proof (cases "v ''opacity''")
  case None
  then show ?thesis by (simp add: sigmoid_opacity_def opacity_falls_back_def)
next
  case (Some a)
  show ?thesis
  proof (cases a)
    case (Fin x)
    have "1 / (1 + exp (- x)) \<noteq> 0" using sigmoid_real_bounds(1) [of x] by simp
    then show ?thesis
      using Some Fin by (simp add: sigmoid_opacity_Fin opacity_falls_back_def)
  qed (simp_all add: Some sigmoid_opacity_def opacity_falls_back_def)
qed

lemma sigmoid_unit: "\<exists>y. sigmoid_opacity v = Fin y \<and> 0 \<le> y \<and> y \<le> 1 \<or> sigmoid_opacity v = NaN"
proof (cases "v ''opacity''")
  case None
  then show ?thesis by (simp add: sigmoid_opacity_def)
next
  case (Some a)
  show ?thesis
  proof (cases a)
    case (Fin x)
    then show ?thesis
      using Some sigmoid_real_bounds [of x] by (simp add: sigmoid_opacity_Fin)
  qed (simp_all add: Some sigmoid_opacity_def)
qed

lemma clamp_range:
  "a \<noteq> NaN \<Longrightarrow> \<exists>y. js_max (Fin 0) (js_min (Fin 1) a) = Fin y \<and> 0 \<le> y \<and> y \<le> 1"
  by (cases a) (auto simp: js_max_def js_min_def)

lemma clamp_unit: "0 \<le> y \<Longrightarrow> y \<le> 1 \<Longrightarrow> js_max (Fin 0) (js_min (Fin 1) (Fin y)) = Fin y"
  by (auto simp: js_max_def js_min_def)

lemma opacity_operand_not_NaN:
  "js_or_num (js_or (Some s) a) (Fin (8 / 10)) \<noteq> NaN"
  by (cases "Some s" rule: truthy.cases; cases a rule: truthy.cases)
     (auto simp: js_or_num_def js_or_def)

lemma opacity_primary:
  assumes "\<not> opacity_falls_back v"
  shows "opacity (processVertex v) = sigmoid_opacity v"
proof -
  from assms have t: "truthy (Some (sigmoid_opacity v))"
    using sigmoid_falsy_iff [of v] by simp
  then have "sigmoid_opacity v \<noteq> NaN" by auto
  with sigmoid_unit [of v] obtain y where y: "sigmoid_opacity v = Fin y" "0 \<le> y" "y \<le> 1"
    by auto
  have "js_or_num (js_or (Some (sigmoid_opacity v)) (v ''alpha'')) (Fin (8 / 10)) = sigmoid_opacity v"
    using t by (simp add: js_or_num_def js_or_def)
  then show ?thesis
    using y by (simp add: opacity_processVertex clamp_unit)
qed

lemma opacity_fallback:
  assumes "opacity_falls_back v"
  shows "opacity (processVertex v) =
     (if truthy (v ''alpha'') then js_max (Fin 0) (js_min (Fin 1) (the (v ''alpha'')))
      else Fin (8 / 10))"
proof -
  from assms have "\<not> truthy (Some (sigmoid_opacity v))"
    using sigmoid_falsy_iff [of v] by simp
  then have "js_or_num (js_or (Some (sigmoid_opacity v)) (v ''alpha'')) (Fin (8 / 10))
        = (if truthy (v ''alpha'') then the (v ''alpha'') else Fin (8 / 10))"
    by (simp add: js_or_num_def js_or_def)
  then show ?thesis
    by (simp add: opacity_processVertex js_max_def js_min_def)
qed

text \<open>
  For a raw opacity of \<open>-Infinity\<close> the sigmoid is 0, yet the decoded opacity is 0.8: a
  sigmoid of 0 is falsy and the fallback is taken. The same happens for a raw opacity
  of -800, where \<open>Math.exp(800)\<close> overflows, and with an \<open>alpha\<close> of 0.25 present the
  decoded opacity is that \<open>alpha\<close>.
\<close>

theorem opacity_counterexample:
  "sigmoid_opacity (Map.empty(''opacity'' \<mapsto> NegInf)) = Fin 0 \<and>
   opacity (processVertex (Map.empty(''opacity'' \<mapsto> NegInf))) = Fin (8 / 10) \<and>
   opacity (processVertex (Map.empty(''opacity'' \<mapsto> Fin (- 800)))) = Fin (8 / 10) \<and>
   opacity (processVertex (Map.empty(''opacity'' \<mapsto> Fin (- 800), ''alpha'' \<mapsto> Fin (1 / 4)))) =
     Fin (1 / 4)"
proof -
  have o: "overflow_bound \<le> exp (- (- 800 :: real))"
    by (rule exp_overflow) simp
  have "opacity_falls_back (Map.empty(''opacity'' \<mapsto> NegInf))"
    "opacity_falls_back (Map.empty(''opacity'' \<mapsto> Fin (- 800)))"
    "opacity_falls_back (Map.empty(''opacity'' \<mapsto> Fin (- 800), ''alpha'' \<mapsto> Fin (1 / 4)))"
    using o by (simp_all add: opacity_falls_back_def)
  then show ?thesis
    by (simp add: opacity_fallback sigmoid_opacity_def js_max_def js_min_def)
qed

text \<open>
  Claim C5, amended. The decoded opacity is the sigmoid of the raw opacity whenever the
  sigmoid is truthy: for every finite raw opacity between -700 and 700 it is
  \<open>1 / (1 + exp (- opacity))\<close>, so a raw 0 decodes to 0.5, and for \<open>+Infinity\<close> and the
  finite values from 760 on it is 1. The sigmoid is falsy when \<open>opacity\<close> is absent,
  \<open>NaN\<close>, \<open>-Infinity\<close> or finite with an overflowing \<open>Math.exp(-opacity)\<close>, which includes
  the values down from -720; then a truthy \<open>alpha\<close> is taken instead and clamped, and 0.8
  when there is none. The decoded opacity is always a number between 0 and 1.
\<close>

theorem opacity_sigmoid_clamped:
  "(\<not> opacity_falls_back v \<longrightarrow> opacity (processVertex v) = sigmoid_opacity v) \<and>
   (\<forall>x. v ''opacity'' = Some (Fin x) \<and> underflow_bound < exp (- x) \<and> exp (- x) < overflow_bound \<longrightarrow>
      opacity (processVertex v) = Fin (1 / (1 + exp (- x)))) \<and>
   (\<forall>x. v ''opacity'' = Some (Fin x) \<and> - 700 \<le> x \<and> x \<le> 700 \<longrightarrow>
      opacity (processVertex v) = Fin (1 / (1 + exp (- x)))) \<and>
   (v ''opacity'' = Some (Fin 0) \<longrightarrow> opacity (processVertex v) = Fin (1 / 2)) \<and>
   (v ''opacity'' = Some PosInf \<or> (\<exists>x. v ''opacity'' = Some (Fin x) \<and> 760 \<le> x) \<longrightarrow>
      opacity (processVertex v) = Fin 1) \<and>
   (\<forall>x. v ''opacity'' = Some (Fin x) \<and> x \<le> - 720 \<longrightarrow> opacity_falls_back v) \<and>
   (opacity_falls_back v \<and> truthy (v ''alpha'') \<longrightarrow>
      opacity (processVertex v) = js_max (Fin 0) (js_min (Fin 1) (the (v ''alpha'')))) \<and>
   (opacity_falls_back v \<and> \<not> truthy (v ''alpha'') \<longrightarrow>
      opacity (processVertex v) = Fin (8 / 10)) \<and>
   (\<exists>y. opacity (processVertex v) = Fin y \<and> 0 \<le> y \<and> y \<le> 1)"
proof -
  have rng: "opacity (processVertex v) = Fin (1 / (1 + exp (- x)))"
    if "v ''opacity'' = Some (Fin x)" "underflow_bound < exp (- x)" "exp (- x) < overflow_bound"
    for x
  proof -
    have "\<not> opacity_falls_back v"
      using that by (simp add: opacity_falls_back_def)
    then show ?thesis
      using that by (simp add: opacity_primary sigmoid_opacity_Fin)
  qed
  have mid: "opacity (processVertex v) = Fin (1 / (1 + exp (- x)))"
    if "v ''opacity'' = Some (Fin x)" "- 700 \<le> x" "x \<le> 700" for x
    using that by (intro rng exp_no_underflow exp_no_overflow) simp_all
  have zero: "opacity (processVertex v) = Fin (1 / 2)" if "v ''opacity'' = Some (Fin 0)"
    using mid [OF that] by simp
  have one: "opacity (processVertex v) = Fin 1"
    if "v ''opacity'' = Some PosInf \<or> (\<exists>x. v ''opacity'' = Some (Fin x) \<and> 760 \<le> x)"
    using that
  proof
    assume p: "v ''opacity'' = Some PosInf"
    then have "\<not> opacity_falls_back v" by (simp add: opacity_falls_back_def)
    then show ?thesis using p by (simp add: opacity_primary sigmoid_opacity_def)
  next
    assume "\<exists>x. v ''opacity'' = Some (Fin x) \<and> 760 \<le> x"
    then obtain x where x: "v ''opacity'' = Some (Fin x)" "760 \<le> x" by blast
    then have u: "exp (- x) \<le> underflow_bound" by (intro exp_underflow) simp
    with underflow_less_overflow have n: "\<not> overflow_bound \<le> exp (- x)" by simp
    then have "\<not> opacity_falls_back v"
      using x by (simp add: opacity_falls_back_def)
    then show ?thesis
      using x u n by (simp add: opacity_primary sigmoid_opacity_Fin)
  qed
  have low: "opacity_falls_back v" if "v ''opacity'' = Some (Fin x)" "x \<le> - 720" for x
  proof -
    have "overflow_bound \<le> exp (- x)" using that by (intro exp_overflow) simp
    then show ?thesis using that by (simp add: opacity_falls_back_def)
  qed
  have unit: "\<exists>y. opacity (processVertex v) = Fin y \<and> 0 \<le> y \<and> y \<le> 1"
    unfolding opacity_processVertex by (rule clamp_range) (rule opacity_operand_not_NaN)
  have fb1: "opacity (processVertex v) = js_max (Fin 0) (js_min (Fin 1) (the (v ''alpha'')))"
    if "opacity_falls_back v" "truthy (v ''alpha'')"
    using that by (simp add: opacity_fallback)
  have fb2: "opacity (processVertex v) = Fin (8 / 10)"
    if "opacity_falls_back v" "\<not> truthy (v ''alpha'')"
    using that by (simp add: opacity_fallback)
  from opacity_primary [of v] rng mid zero one low fb1 fb2 unit show ?thesis by blast
qed

theorem opacity_sigmoid_clamped_witness:
  "opacity (processVertex (Map.empty(''opacity'' \<mapsto> Fin 0, ''alpha'' \<mapsto> Fin 3))) = Fin (1 / 2) \<and>
   opacity (processVertex (Map.empty(''alpha'' \<mapsto> Fin 3))) = Fin 1 \<and>
   opacity (processVertex (Map.empty(''opacity'' \<mapsto> NaN))) = Fin (8 / 10) \<and>
   opacity (processVertex (Map.empty(''opacity'' \<mapsto> PosInf))) = Fin 1 \<and>
   opacity (processVertex (Map.empty(''opacity'' \<mapsto> Fin (- 800)))) = Fin (8 / 10) \<and>
   opacity (processVertex (Map.empty(''opacity'' \<mapsto> Fin 800))) = Fin 1"
proof -
  let ?a = "Map.empty(''opacity'' \<mapsto> Fin 0, ''alpha'' \<mapsto> Fin (3 :: real))"
  let ?b = "Map.empty(''alpha'' \<mapsto> Fin (3 :: real))"
  let ?c = "Map.empty(''opacity'' \<mapsto> NaN)"
  let ?d = "Map.empty(''opacity'' \<mapsto> PosInf)"
  let ?e = "Map.empty(''opacity'' \<mapsto> Fin (- 800 :: real))"
  let ?f = "Map.empty(''opacity'' \<mapsto> Fin (800 :: real))"
  have fb: "opacity_falls_back ?b" "opacity_falls_back ?c"
    by (simp_all add: opacity_falls_back_def)
  have a: "opacity (processVertex ?a) = Fin (1 / 2)"
    using opacity_sigmoid_clamped [of ?a] by simp
  have b: "opacity (processVertex ?b) = Fin 1"
    using opacity_sigmoid_clamped [of ?b] fb(1) by (simp add: js_max_def js_min_def)
  have c: "opacity (processVertex ?c) = Fin (8 / 10)"
    using opacity_sigmoid_clamped [of ?c] fb(2) by simp
  have d: "opacity (processVertex ?d) = Fin 1"
    using opacity_sigmoid_clamped [of ?d] by simp
  have "opacity_falls_back ?e"
    using opacity_sigmoid_clamped [of ?e] by simp
  then have e: "opacity (processVertex ?e) = Fin (8 / 10)"
    using opacity_sigmoid_clamped [of ?e] by simp
  have f: "opacity (processVertex ?f) = Fin 1"
    using opacity_sigmoid_clamped [of ?f] by simp
  from a b c d e f show ?thesis by simp
qed

section \<open>Properties of the column store and of the shading model\<close>

subsection \<open>Display colour\<close>

lemma SH_C0_nonzero: "SH_C0 \<noteq> 0"
  by (simp add: SH_C0_def)

lemma forward_inverse_real: "C \<noteq> 0 \<Longrightarrow> 1 / 2 + C * ((x - 1 / 2) / C) = (x::real)"
  by simp

lemma rgb_of_dc_rgb8:
  "rgb_of_dc (rgb8_to_dc (Some (Fin c))) = Fin (c / 255)"
  using forward_inverse_real [OF SH_C0_nonzero, of "c / 255"]
  by (simp add: rgb_of_dc_def rgb8_to_dc_def js_sub_def SH_C0_nonzero)

lemma rgb_of_dc_rgb:
  "rgb_of_dc (rgb_to_dc (Some (Fin c))) = Fin c"
  using forward_inverse_real [OF SH_C0_nonzero, of c]
  by (simp add: rgb_of_dc_def rgb_to_dc_def js_sub_def SH_C0_nonzero)

lemma attr_color_single:
  "attr_color (createGaussianSplatMesh [s] h) = map (\<lambda>j. rgb_of_dc (component (sh_dc s) j)) [0, 1, 2]"
  by (simp add: createGaussianSplatMesh_def)



text \<open>
  Claim C6. The display colour array holds \<open>0.5 + 0.28209479177387814 * dc\<close> for every
  component \<open>dc\<close> of the \<open>sh_dc\<close> of every splat, whatever produced that \<open>sh_dc\<close>. For a
  vertex without \<open>f_dc\<close> values and with finite \<open>red\<close>, \<open>green\<close>, \<open>blue\<close> the degree-0
  colour is the inverse encoding of the 8-bit colour, and the display colour derived from
  it is the colour divided by 255: the forward encoding undoes the inverse one. For
  \<open>red, green, blue = 255, 0, 0\<close> the display colour is \<open>[1, 0, 0]\<close>.
\<close>

theorem display_rgb_from_colorDC:
  "attr_color (createGaussianSplatMesh vs h) =
     concat (map (\<lambda>s. map (\<lambda>j. js_add (Fin (1 / 2)) (js_mul (Fin SH_C0) (component (sh_dc s) j)))
       [0, 1, 2]) vs) \<and>
   (dc_all_zero v \<and> v ''red'' = Some (Fin r) \<and> v ''green'' = Some (Fin g) \<and>
    v ''blue'' = Some (Fin b) \<longrightarrow>
      sh_dc (processVertex v) =
        [Fin ((r / 255 - 1 / 2) / SH_C0), Fin ((g / 255 - 1 / 2) / SH_C0),
         Fin ((b / 255 - 1 / 2) / SH_C0)] \<and>
      attr_color (createGaussianSplatMesh [processVertex v] h) =
        [Fin (r / 255), Fin (g / 255), Fin (b / 255)]) \<and>
   (dc_all_zero v \<and> v ''red'' = Some (Fin 255) \<and> v ''green'' = Some (Fin 0) \<and>
    v ''blue'' = Some (Fin 0) \<longrightarrow>
      sh_dc (processVertex v) =
        [Fin ((1 - 1 / 2) / SH_C0), Fin ((0 - 1 / 2) / SH_C0), Fin ((0 - 1 / 2) / SH_C0)] \<and>
      attr_color (createGaussianSplatMesh [processVertex v] h) = [Fin 1, Fin 0, Fin 0])"
proof -
  have col: "attr_color (createGaussianSplatMesh vs h) =
     concat (map (\<lambda>s. map (\<lambda>j. js_add (Fin (1 / 2)) (js_mul (Fin SH_C0) (component (sh_dc s) j)))
       [0, 1, 2]) vs)"
    by (simp add: createGaussianSplatMesh_def rgb_of_dc_def)
  have gen: "sh_dc (processVertex v) =
        [Fin ((r / 255 - 1 / 2) / SH_C0), Fin ((g / 255 - 1 / 2) / SH_C0),
         Fin ((b / 255 - 1 / 2) / SH_C0)] \<and>
      attr_color (createGaussianSplatMesh [processVertex v] h) =
        [Fin (r / 255), Fin (g / 255), Fin (b / 255)]"
    if z: "dc_all_zero v" and rgb: "v ''red'' = Some (Fin r)" "v ''green'' = Some (Fin g)"
      "v ''blue'' = Some (Fin b)" for r g b
  proof -
    have dc: "sh_dc (processVertex v) =
        [rgb8_to_dc (Some (Fin r)), rgb8_to_dc (Some (Fin g)), rgb8_to_dc (Some (Fin b))]"
      using z rgb by (simp add: sh_dc_processVertex all_present_def)
    have val: "rgb8_to_dc (Some (Fin c)) = Fin ((c / 255 - 1 / 2) / SH_C0)" for c
      by (simp add: rgb8_to_dc_def js_sub_def SH_C0_nonzero)
    have a1: "sh_dc (processVertex v) =
        [Fin ((r / 255 - 1 / 2) / SH_C0), Fin ((g / 255 - 1 / 2) / SH_C0),
         Fin ((b / 255 - 1 / 2) / SH_C0)]"
      by (simp add: dc val)
    have a2: "attr_color (createGaussianSplatMesh [processVertex v] h) =
        [Fin (r / 255), Fin (g / 255), Fin (b / 255)]"
      by (simp add: attr_color_single dc component_def js_index_def rgb_of_dc_rgb8)
    from a1 a2 show ?thesis by (rule conjI)
  qed
  show ?thesis
    using col gen [of r g b] gen [of 255 0 0] by simp
qed


subsection \<open>Spherical harmonics\<close>

lemma clamp01_range: "0 \<le> clamp01 x \<and> clamp01 x \<le> 1"
  by (simp add: clamp01_def)

lemma clamp_vec_range: "in_unit_range (clamp_vec c)"
  by (simp add: in_unit_range_def clamp_vec_def vec_x_def vec_y_def vec_z_def clamp01_range)

text \<open>
  With a degree-0 coefficient of 10 the red channel is \<open>0.5 + 2.82...\<close> before the early
  return, and the function returns 1 for the requested degrees 0 and 1: the value is
  clamped.
\<close>

theorem sh_clamp_counterexample:
  "evaluateSphericalHarmonics zero_attributes (0, 0, 1) (10, 0, 0) 0 = (1, 1 / 2, 1 / 2) \<and>
   evaluateSphericalHarmonics zero_attributes (0, 0, 1) (10, 0, 0) 1 = (1, 1 / 2, 1 / 2) \<and>
   1 < degree0 vec_x (10, 0, 0)"
  by (simp add: evaluateSphericalHarmonics_def degree0_def degree1_def clamp_vec_def clamp01_def
      vec_x_def vec_y_def vec_z_def zero_attributes_def SH_C0_def SH_C1_def)

text \<open>
  Claim C8, amended. A requested degree below 1 yields the degree-0 term alone, degree 1
  adds the three linear terms, and a degree of 2 or more adds the five quadratic terms.
  For a degree below 2 the result is clamped to the range from 0 to 1; only for a degree
  of 2 or more it is returned unclamped.
\<close>

theorem sh_degree_clamps_expansion:
  "(degree < 1 \<longrightarrow>
      evaluateSphericalHarmonics a dir dc degree =
        clamp_vec (degree0 vec_x dc, degree0 vec_y dc, degree0 vec_z dc) \<and>
      in_unit_range (evaluateSphericalHarmonics a dir dc degree)) \<and>
   (degree = 1 \<longrightarrow>
      evaluateSphericalHarmonics a dir dc degree =
        clamp_vec (degree0 vec_x dc + degree1 vec_x a dir, degree0 vec_y dc + degree1 vec_y a dir,
                   degree0 vec_z dc + degree1 vec_z a dir) \<and>
      in_unit_range (evaluateSphericalHarmonics a dir dc degree)) \<and>
   (2 \<le> degree \<longrightarrow>
      evaluateSphericalHarmonics a dir dc degree =
        (degree0 vec_x dc + degree1 vec_x a dir + degree2 vec_x a dir,
         degree0 vec_y dc + degree1 vec_y a dir + degree2 vec_y a dir,
         degree0 vec_z dc + degree1 vec_z a dir + degree2 vec_z a dir))"
proof (intro conjI impI)
  assume d: "degree < 1"
  then show e0: "evaluateSphericalHarmonics a dir dc degree =
        clamp_vec (degree0 vec_x dc, degree0 vec_y dc, degree0 vec_z dc)"
    by (simp add: evaluateSphericalHarmonics_def)
  show "in_unit_range (evaluateSphericalHarmonics a dir dc degree)"
    unfolding e0 by (rule clamp_vec_range)
next
  assume d: "degree = 1"
  then show e1: "evaluateSphericalHarmonics a dir dc degree =
        clamp_vec (degree0 vec_x dc + degree1 vec_x a dir, degree0 vec_y dc + degree1 vec_y a dir,
                   degree0 vec_z dc + degree1 vec_z a dir)"
    by (simp add: evaluateSphericalHarmonics_def Let_def vec_x_def vec_y_def vec_z_def)
  show "in_unit_range (evaluateSphericalHarmonics a dir dc degree)"
    unfolding e1 by (rule clamp_vec_range)
next
  assume d: "2 \<le> degree"
  then show "evaluateSphericalHarmonics a dir dc degree =
        (degree0 vec_x dc + degree1 vec_x a dir + degree2 vec_x a dir,
         degree0 vec_y dc + degree1 vec_y a dir + degree2 vec_y a dir,
         degree0 vec_z dc + degree1 vec_z a dir + degree2 vec_z a dir)"
    by (simp add: evaluateSphericalHarmonics_def Let_def vec_x_def vec_y_def vec_z_def)
qed

text \<open>The unclamped result overshoots the range on both sides for a degree of 2 or more.\<close>

theorem sh_degree_clamps_expansion_witness:
  "evaluateSphericalHarmonics zero_attributes (0, 0, 1) (10, - 10, 0) 0 = (1, 0, 1 / 2) \<and>
   evaluateSphericalHarmonics (zero_attributes\<lparr>sh_rest_3_5 := (10, 0, 0)\<rparr>) (0, 0, 1) (0, 0, 0) 1
     = (1, 1 / 2, 1 / 2) \<and>
   1 < vec_x (evaluateSphericalHarmonics zero_attributes (0, 0, 1) (10, 0, 0) 2) \<and>
   vec_y (evaluateSphericalHarmonics zero_attributes (0, 0, 1) (10, - 10, 0) 5) < 0"
  using sh_degree_clamps_expansion [of 0 zero_attributes "(0, 0, 1)" "(10, - 10, 0)"]
    sh_degree_clamps_expansion
      [of 1 "zero_attributes\<lparr>sh_rest_3_5 := (10, 0, 0)\<rparr>" "(0, 0, 1)" "(0, 0, 0)"]
    sh_degree_clamps_expansion [of 2 zero_attributes "(0, 0, 1)" "(10, 0, 0)"]
    sh_degree_clamps_expansion [of 5 zero_attributes "(0, 0, 1)" "(10, - 10, 0)"]
  by (simp add: degree0_def degree1_def degree2_def clamp_vec_def clamp01_def
      vec_x_def vec_y_def vec_z_def zero_attributes_def SH_C0_def SH_C1_def)

section \<open>Properties of parseHeader\<close>

lemma header_loop_no_end:
  "\<forall>l \<in> set ls. \<not> is_end_header l \<Longrightarrow>
   headerLength (fst (header_loop ls inH ht (h, le))) = headerLength h"
proof (induction ls arbitrary: inH ht h le)
  case Nil
  then show ?case by simp
next
  case (Cons l ls)
  then have ne: "trim l \<noteq> ''end_header''" and rest: "\<forall>l \<in> set ls. \<not> is_end_header l"
    by (simp_all add: is_end_header_def)
  note IH = Cons.IH [OF rest]
  show ?case
    using ne by (simp add: Let_def IH)
qed

lemma header_loop_no_count:
  "\<forall>l \<in> set ls. \<not> sets_vertex_count l \<Longrightarrow>
   vertexCount (fst (header_loop ls inH ht (h, le))) = vertexCount h"
proof (induction ls arbitrary: inH ht h le)
  case Nil
  then show ?case by simp
next
  case (Cons l ls)
  then have ne: "\<not> sets_vertex_count l" and rest: "\<forall>l \<in> set ls. \<not> sets_vertex_count l"
    by simp_all
  note IH = Cons.IH [OF rest]
  show ?case
    using ne by (auto simp: Let_def IH sets_vertex_count_def)
qed

lemma no_end_lines: "\<forall>l \<in> set (header_lines no_end_buffer). \<not> is_end_header l \<and> \<not> sets_vertex_count l"
  by code_simp

lemma parseHeader_no_end: "parseHeader True no_end_buffer =
     (\<lparr>format = Some ''ascii'', vertexCount = Some 0, properties = [], headerLength = 0\<rparr>, False)"
  by code_simp

text \<open>
  A buffer with no \<open>end_header\<close> line and no \<open>element vertex\<close> line: the parser
  returns a header, with \<open>headerLength\<close> and \<open>vertexCount\<close> still 0, and the load as a
  whole returns a mesh of no vertices.
\<close>

theorem parseHeader_counterexample:
  "fst (parseHeader True no_end_buffer) =
     \<lparr>format = Some ''ascii'', vertexCount = Some 0, properties = [], headerLength = 0\<rparr> \<and>
   fst (parse True no_end_buffer) =
     Inr (createGaussianSplatMesh []
       \<lparr>format = Some ''ascii'', vertexCount = Some 0, properties = [], headerLength = 0\<rparr>)"
  by (simp add: parse_def parseHeader_no_end parseVertices_def parseAsciiVertices_def
      loop_count_def map_result_def)

text \<open>
  Claim C2, amended. Header parsing never fails: it returns a header for every buffer.
  If no line of the buffer trims to \<open>end_header\<close> the header has \<open>headerLength\<close> 0, and
  if no line sets the vertex count the header has \<open>vertexCount\<close> 0.
\<close>

theorem parseHeader_total:
  "((\<forall>l \<in> set (header_lines buf). \<not> is_end_header l) \<longrightarrow>
      headerLength (fst (parseHeader le buf)) = 0) \<and>
   ((\<forall>l \<in> set (header_lines buf). \<not> sets_vertex_count l) \<longrightarrow>
      vertexCount (fst (parseHeader le buf)) = Some 0)"
  by (simp add: parseHeader_def header_lines_def header_loop_no_end header_loop_no_count
      initial_header_def)

theorem parseHeader_total_witness:
  "headerLength (fst (parseHeader True no_end_buffer)) = 0 \<and>
   vertexCount (fst (parseHeader True no_end_buffer)) = Some 0"
  using parseHeader_total [of no_end_buffer True] no_end_lines by simp

subsection \<open>The header length\<close>

text \<open>
  When a line trims to \<open>end_header\<close>, the header length is the sum, over the lines up to
  and including the first such line, of the length of the trimmed line plus one.
\<close>

lemma header_loop_length:
  "is_end_header l \<Longrightarrow> \<forall>l' \<in> set pre. \<not> is_end_header l' \<Longrightarrow>
   headerLength (fst (header_loop (pre @ l # post) inH ht (h, le))) =
     length ht + sum_list (map (\<lambda>l. length (trim l) + 1) (pre @ [l]))"
proof (induction pre arbitrary: inH ht h le)
  case Nil
  then show ?case
    by (simp add: is_end_header_def Let_def encoded_length_def)
next
  case (Cons p pre)
  then have ne: "trim p \<noteq> ''end_header''" and rest: "\<forall>l' \<in> set pre. \<not> is_end_header l'"
    by (simp_all add: is_end_header_def)
  note IH = Cons.IH [OF Cons.prems(1) rest]
  show ?case
    using ne by (simp add: Let_def IH)
qed

lemma headerLength_sum:
  "header_lines buf = pre @ l # post \<Longrightarrow> is_end_header l \<Longrightarrow>
   \<forall>l' \<in> set pre. \<not> is_end_header l' \<Longrightarrow>
   headerLength (fst (parseHeader le buf)) = sum_list (map (\<lambda>l. length (trim l) + 1) (pre @ [l]))"
  using header_loop_length [of l pre post False "[]" initial_header le]
  by (simp add: parseHeader_def header_lines_def)

lemma parseHeader_crlf: "parseHeader True crlf_buffer = (red_header 83, True)"
  by code_simp

lemma parseHeader_latin1: "parseHeader True latin1_buffer = (red_header 98, True)"
  by code_simp

lemma lengths_examples: "length crlf_header = 88" "length latin1_header = 96"
  by code_simp+

lemma red_map: "createPropertyMap (properties (red_header n)) =
    ([(''red'', \<lparr>p_offset = 0, p_type = Some ''uchar'', p_size = 1\<rparr>)], 1)"
  by (simp add: red_header_def createPropertyMap_def key_of_def getTypeSize_def)

lemma get_byte: "i < length buf \<Longrightarrow> get_bytes le buf i (Suc 0) = Inr [of_char (buf ! i)]"
  by (simp add: get_bytes_def Let_def take_Suc_conv_app_nth [of 0] hd_drop_conv_nth)

lemma read_uchar:
  "readBinaryValue le buf i (Some ''uchar'') =
     (if i < length buf then Inr (Fin (real (of_char (buf ! i) :: nat))) else Inl RangeError)"
proof (cases "i < length buf")
  case True
  then show ?thesis
    by (simp add: readBinaryValue_def map_result_def get_byte uint_of_def)
next
  case False
  then show ?thesis
    by (simp add: readBinaryValue_def map_result_def get_bytes_def)
qed

lemma crlf_bytes: "crlf_buffer ! 83 = CHR ''d''" "crlf_buffer ! 88 = char_of (255 :: nat)"
  "length crlf_buffer = 89" "length latin1_buffer = 97"
  by code_simp+

lemma headerLength_red: "headerLength (red_header n) = n"
  by (simp add: red_header_def)

lemma parseVertices_red:
  "parseVertices True buf n (red_header n) =
     (if n < length buf
      then Inr [processVertex (Map.empty(''red'' \<mapsto> Fin (real (of_char (buf ! n) :: nat))))]
      else Inl RangeError)"
proof -
  have "format (red_header n) \<noteq> Some ''ascii''" "loop_count (vertexCount (red_header n)) = Suc 0"
    by (simp_all add: red_header_def loop_count_def)
  then show ?thesis
    by (simp add: parseVertices_def parseBinaryVertices_def red_map read_uchar vertex_set_def)
qed

text \<open>
  Claim C7 at two files. The header length is the encoded length of the trimmed lines
  that were decoded from the buffer, not the length of the header bytes. For a header
  of 88 bytes whose five lines end in carriage return and line feed it is 83: the record
  is read five bytes early, and the byte \<open>d\<close> of \<open>end_header\<close> is decoded as the colour
  instead of the byte 255 that follows the header. For a header of 96 bytes with one
  Latin-1 byte in a comment, which decodes to U+FFFD, it is 98: the read starts past the
  record and the load fails.
\<close>

theorem headerLength_trimmed_lines:
  "headerLength (fst (parseHeader True crlf_buffer)) = 83 \<and>
   length crlf_header = 88 \<and>
   readBinaryValue True crlf_buffer (length crlf_header) (Some ''uchar'') = Inr (Fin 255) \<and>
   fst (parse True crlf_buffer) =
     Inr (createGaussianSplatMesh [processVertex (Map.empty(''red'' \<mapsto> Fin 100))]
       (red_header 83)) \<and>
   headerLength (fst (parseHeader True latin1_buffer)) = 98 \<and>
   length latin1_header = 96 \<and>
   fst (parse True latin1_buffer) = Inl RangeError"
  by (simp add: parse_def parseHeader_crlf parseHeader_latin1 lengths_examples
      headerLength_red parseVertices_red read_uchar crlf_bytes map_result_def)

theorem headerLength_trimmed_lines_witness:
  "headerLength (fst (parseHeader True crlf_buffer)) < length crlf_header \<and>
   length latin1_header < headerLength (fst (parseHeader True latin1_buffer))"
  using headerLength_trimmed_lines by simp

section \<open>Properties of the ASCII decoder\<close>

lemma ascii_loop_eq:
  "ascii_loop ls props =
     map (\<lambda>l. createVertex (map parseFloat (tokens l)) props)
       (filter (\<lambda>l. 3 \<le> length (tokens l)) ls)"
  by (induction ls) (simp_all add: Let_def tokens_def)

lemma ascii_lines_nonblank: "l \<in> set (ascii_lines buf offset) \<Longrightarrow> trim l \<noteq> []"
  by (simp add: ascii_lines_def)

lemma assign_values_other:
  "k \<notin> set (keys_of (take (length vals) props)) \<Longrightarrow> assign_values vals props v k = v k"
proof (induction vals props v rule: assign_values.induct)
  case (1 x xs p ps v)
  then show ?case by (simp add: keys_of_def vertex_set_def)
qed simp_all

lemma assign_values_nth:
  "i < length vals \<Longrightarrow> i < length props \<Longrightarrow> distinct (keys_of props) \<Longrightarrow>
   keys_of props ! i \<noteq> ''__proto__'' \<Longrightarrow>
   assign_values vals props v (keys_of props ! i) = Some (vals ! i)"
proof (induction vals props v arbitrary: i rule: assign_values.induct)
  case (1 x xs p ps v)
  show ?case
  proof (cases i)
    case 0
    have "key_of (pname p) \<notin> set (keys_of (take (length xs) ps))"
      using "1.prems"(3) by (auto simp: keys_of_def dest: in_set_takeD)
    then show ?thesis
      using 0 "1.prems"(4) by (simp add: assign_values_other keys_of_def vertex_set_def)
  next
    case (Suc j)
    then show ?thesis
      using "1.prems" "1.IH" [of j] by (simp add: keys_of_def)
  qed
qed simp_all

text \<open>
  Claim C9, amended. The ASCII decoder visits the first \<open>vertexCount\<close> lines that are
  not blank, and produces a record, in order, for each visited line that has at least
  three white-space-delimited pieces; a visited line with fewer pieces produces none. A
  record is the post-processed vertex in which the values are assigned to the
  properties position by position: a name beyond the available values stays unassigned,
  and for distinct names the value at a position is the one stored under the name at
  that position.
\<close>

theorem ascii_decode_lines:
  "parseAsciiVertices buf offset h =
     map (\<lambda>l. createVertex (map parseFloat (tokens l)) (properties h))
       (filter (\<lambda>l. 3 \<le> length (tokens l))
          (take (loop_count (vertexCount h)) (ascii_lines buf offset))) \<and>
   (\<forall>l \<in> set (ascii_lines buf offset). trim l \<noteq> []) \<and>
   createVertex vals props = processVertex (assign_values vals props Map.empty) \<and>
   (\<forall>k. k \<notin> set (keys_of (take (length vals) props)) \<longrightarrow>
      assign_values vals props Map.empty k = None) \<and>
   (\<forall>i. i < length vals \<and> i < length props \<and> distinct (keys_of props) \<and>
      keys_of props ! i \<noteq> ''__proto__'' \<longrightarrow>
      assign_values vals props Map.empty (keys_of props ! i) = Some (vals ! i))"
proof -
  have "take (min (length ls) n) ls = take n ls" for ls :: "string list" and n
    by (simp add: min_def)
  then have "parseAsciiVertices buf offset h =
     map (\<lambda>l. createVertex (map parseFloat (tokens l)) (properties h))
       (filter (\<lambda>l. 3 \<le> length (tokens l))
          (take (loop_count (vertexCount h)) (ascii_lines buf offset)))"
    by (simp add: parseAsciiVertices_def Let_def ascii_loop_eq)
  then show ?thesis
    by (simp add: ascii_lines_nonblank createVertex_def assign_values_other assign_values_nth)
qed

lemma parseHeader_ascii: "parseHeader True ascii_buffer = (xyz_header, False)"
  by code_simp

lemma ascii_lines_example:
  "ascii_lines ascii_buffer (length ascii_header) = [''7 8'', ''1 2 3'']"
  by code_simp

lemma tokens_examples:
  "tokens ''7 8'' = [''7'', ''8'']" "tokens ''1 2 3'' = [''1'', ''2'', ''3'']"
  by code_simp+

lemma parseFloat_examples:
  "parseFloat ''1'' = Fin 1" "parseFloat ''2'' = Fin 2" "parseFloat ''3'' = Fin 3"
  by code_simp+

lemma assign_values_example:
  "assign_values [Fin 1, Fin 2, Fin 3] (properties xyz_header) Map.empty =
     Map.empty(''x'' \<mapsto> Fin 1, ''y'' \<mapsto> Fin 2, ''z'' \<mapsto> Fin 3)"
  by (simp add: xyz_header_def key_of_def vertex_set_def)

lemma parseAsciiVertices_example:
  "parseAsciiVertices ascii_buffer (length ascii_header) xyz_header =
     [processVertex (Map.empty(''x'' \<mapsto> Fin 1, ''y'' \<mapsto> Fin 2, ''z'' \<mapsto> Fin 3))]"
proof -
  have "loop_count (vertexCount xyz_header) = 2"
    by (simp add: xyz_header_def loop_count_def)
  then show ?thesis
    by (simp add: parseAsciiVertices_def ascii_lines_example tokens_examples
        tokens_def [symmetric] parseFloat_examples createVertex_def assign_values_example)
qed

text \<open>
  The file has two lines that are not blank and declares four properties. The line
  \<open>7 8\<close> has two pieces, fewer than the properties, and produces no record: the mesh
  has the single vertex of the line \<open>1 2 3\<close>.
\<close>

theorem ascii_short_line_counterexample:
  "ascii_lines ascii_buffer (length ascii_header) = [''7 8'', ''1 2 3''] \<and>
   tokens ''7 8'' = [''7'', ''8''] \<and>
   length (properties xyz_header) = 4 \<and>
   fst (parse True ascii_buffer) =
     Inr (createGaussianSplatMesh
       [processVertex (Map.empty(''x'' \<mapsto> Fin 1, ''y'' \<mapsto> Fin 2, ''z'' \<mapsto> Fin 3))]
       xyz_header)"
proof -
  have "format xyz_header = Some ''ascii''" "headerLength xyz_header = length ascii_header"
    "length (properties xyz_header) = 4"
    by (simp_all add: xyz_header_def)
  then show ?thesis
    by (simp add: parse_def parseHeader_ascii parseVertices_def parseAsciiVertices_example
        ascii_lines_example tokens_examples map_result_def)
qed

theorem ascii_decode_lines_witness:
  "parseAsciiVertices ascii_buffer (length ascii_header) xyz_header =
     [processVertex (Map.empty(''x'' \<mapsto> Fin 1, ''y'' \<mapsto> Fin 2, ''z'' \<mapsto> Fin 3))] \<and>
   assign_values [Fin 1, Fin 2, Fin 3] (properties xyz_header) Map.empty ''opacity'' = None \<and>
   assign_values [Fin 1, Fin 2, Fin 3] (properties xyz_header) Map.empty ''z'' = Some (Fin 3)"
proof -
  let ?props = "properties xyz_header"
  let ?vals = "[Fin 1, Fin 2, Fin 3]"
  note inst = ascii_decode_lines [of ascii_buffer "length ascii_header" xyz_header ?vals ?props]
  have keys: "keys_of ?props = [''x'', ''y'', ''z'', ''opacity'']"
    by (simp add: keys_of_def xyz_header_def key_of_def)
  have len: "length ?props = 4"
    by (simp add: xyz_header_def)
  have a: "parseAsciiVertices ascii_buffer (length ascii_header) xyz_header =
      [processVertex (assign_values ?vals ?props Map.empty)]"
    using inst
    by (simp add: ascii_lines_example tokens_examples parseFloat_examples
        xyz_header_def loop_count_def)
  have b: "assign_values ?vals ?props Map.empty ''opacity'' = None"
    using inst [THEN conjunct2, THEN conjunct2, THEN conjunct2, THEN conjunct1, THEN spec,
        of "''opacity''"]
    by (simp add: xyz_header_def keys_of_def key_of_def)
  have c: "assign_values ?vals ?props Map.empty ''z'' = Some (Fin 3)"
    using inst [THEN conjunct2, THEN conjunct2, THEN conjunct2, THEN conjunct2, THEN spec, of 2]
    by (simp add: keys len)
  from a b c show ?thesis by (simp add: assign_values_example)
qed

section \<open>Properties of the binary decoder\<close>

lemma readBinaryValue_result:
  "readBinaryValue le buf off t =
     (if off + getTypeSize t \<le> length buf
      then Inr (projr (readBinaryValue le buf off t)) else Inl RangeError)"
  by (simp add: readBinaryValue_def getTypeSize_def get_bytes_def map_result_def)

lemma read_entries_ok:
  "\<forall>e \<in> set es. fits buf vo e \<Longrightarrow> \<exists>v'. read_entries le buf vo es v = Inr v'"
proof (induction es arbitrary: v)
  case Nil
  then show ?case by simp
next
  case (Cons e es)
  obtain name info where e: "e = (name, info)" by (cases e)
  from Cons.prems have rest: "\<forall>e \<in> set es. fits buf vo e" and f: "fits buf vo e" by simp_all
  show ?case
  proof (cases "name = ''vertexSize''")
    case True
    then show ?thesis using Cons.IH [OF rest] by (simp add: e)
  next
    case False
    with f have "vo + p_offset info + getTypeSize (p_type info) \<le> length buf"
      by (simp add: fits_def e)
    then obtain x where "readBinaryValue le buf (vo + p_offset info) (p_type info) = Inr x"
      using readBinaryValue_result [of le buf "vo + p_offset info" "p_type info"] by auto
    then show ?thesis using False Cons.IH [OF rest] by (simp add: e)
  qed
qed

lemma read_entries_fail:
  "e \<in> set es \<Longrightarrow> \<not> fits buf vo e \<Longrightarrow> read_entries le buf vo es v = Inl RangeError"
proof (induction es arbitrary: v)
  case Nil
  then show ?case by simp
next
  case (Cons e' es)
  obtain name info where e': "e' = (name, info)" by (cases e')
  show ?case
  proof (cases "read_entries le buf vo (e' # es) v")
    case (Inl a)
    then show ?thesis by (cases a) simp
  next
    case (Inr v')
    show ?thesis
    proof (cases "e = e'")
      case True
      with Cons.prems(2) have nv: "name \<noteq> ''vertexSize''"
        and "\<not> vo + p_offset info + getTypeSize (p_type info) \<le> length buf"
        by (simp_all add: fits_def e')
      then have "readBinaryValue le buf (vo + p_offset info) (p_type info) = Inl RangeError"
        using readBinaryValue_result [of le buf "vo + p_offset info" "p_type info"] by simp
      with nv show ?thesis by (simp add: e')
    next
      case False
      with Cons.prems have "e \<in> set es" by simp
      from Cons.IH [OF this Cons.prems(2)] show ?thesis
        by (simp add: e' split: sum.splits) (metis error.exhaust)
    qed
  qed
qed

lemma binary_loop_length:
  "binary_loop le buf offset pm i k = Inr vs \<Longrightarrow> length vs = k"
  by (induction k arbitrary: i vs) (auto split: sum.splits)

lemma binary_loop_ok:
  "(\<And>j. j < k \<Longrightarrow> \<forall>e \<in> set (fst pm). fits buf (offset + (i + j) * snd pm) e) \<Longrightarrow>
   \<exists>vs. binary_loop le buf offset pm i k = Inr vs"
proof (induction k arbitrary: i)
  case 0
  then show ?case by simp
next
  case (Suc k)
  have "\<forall>e \<in> set (fst pm). fits buf (offset + i * snd pm) e"
    using Suc.prems [of 0] by simp
  then obtain v where v: "read_entries le buf (offset + i * snd pm) (fst pm) Map.empty = Inr v"
    using read_entries_ok by blast
  have "\<And>j. j < k \<Longrightarrow> \<forall>e \<in> set (fst pm). fits buf (offset + (Suc i + j) * snd pm) e"
    using Suc.prems [of "Suc _"] by simp
  then obtain vs where "binary_loop le buf offset pm (Suc i) k = Inr vs"
    using Suc.IH [of "Suc i"] by blast
  with v show ?case by simp
qed

lemma binary_loop_fail:
  "j < k \<Longrightarrow> e \<in> set (fst pm) \<Longrightarrow> \<not> fits buf (offset + (i + j) * snd pm) e \<Longrightarrow>
   binary_loop le buf offset pm i k = Inl RangeError"
proof (induction k arbitrary: i j)
  case 0
  then show ?case by simp
next
  case (Suc k)
  show ?case
  proof (cases j)
    case 0
    with Suc.prems have "read_entries le buf (offset + i * snd pm) (fst pm) Map.empty = Inl RangeError"
      using read_entries_fail [of e "fst pm" buf "offset + i * snd pm" le Map.empty] by simp
    then show ?thesis by simp
  next
    case (Suc j')
    with Suc.prems have "binary_loop le buf offset pm (Suc i) k = Inl RangeError"
      using Suc.IH [of j' "Suc i"] by simp
    then show ?thesis
      by (simp split: sum.splits) (metis error.exhaust)
  qed
qed

lemma obj_set_subset: "set (obj_set m k x) \<subseteq> insert (k, x) (set m)"
  by (induction m) (auto split: if_splits)

lemma obj_set_member: "k \<noteq> ''__proto__'' \<Longrightarrow> (k, x) \<in> set (obj_set m k x)"
  by (induction m) auto

lemma property_map_loop_snd:
  "snd (property_map_loop ps m off) = off + sum_list (map (\<lambda>p. getTypeSize (ptype p)) ps)"
  by (induction ps arbitrary: m off) simp_all

lemma property_map_loop_bounded:
  "\<forall>e \<in> set m. bounded off e \<Longrightarrow>
   \<forall>e \<in> set (fst (property_map_loop ps m off)). bounded (snd (property_map_loop ps m off)) e"
proof (induction ps arbitrary: m off)
  case Nil
  then show ?case by simp
next
  case (Cons p ps)
  let ?x = "\<lparr>p_offset = off, p_type = ptype p, p_size = getTypeSize (ptype p)\<rparr>"
  let ?m = "obj_set m (key_of (pname p)) ?x"
  have "\<forall>e \<in> set ?m. bounded (off + getTypeSize (ptype p)) e"
  proof
    fix e assume "e \<in> set ?m"
    then have "e = (key_of (pname p), ?x) \<or> e \<in> set m"
      using obj_set_subset [of m "key_of (pname p)" ?x] by auto
    then show "bounded (off + getTypeSize (ptype p)) e"
      using Cons.prems by (auto simp: bounded_def)
  qed
  from Cons.IH [OF this] show ?case by simp
qed

lemma property_map_loop_append:
  "property_map_loop (ps @ [p]) m off =
     (obj_set (fst (property_map_loop ps m off)) (key_of (pname p))
        \<lparr>p_offset = snd (property_map_loop ps m off), p_type = ptype p,
         p_size = getTypeSize (ptype p)\<rparr>,
      snd (property_map_loop ps m off) + getTypeSize (ptype p))"
  by (induction ps arbitrary: m off) simp_all

lemma last_entry:
  assumes "ps \<noteq> []" and "key_of (pname (last ps)) \<noteq> ''__proto__''"
  shows "\<exists>info. (key_of (pname (last ps)), info) \<in> set (fst (createPropertyMap ps)) \<and>
     p_offset info + getTypeSize (p_type info) = snd (createPropertyMap ps)"
proof -
  from assms(1) obtain qs p where ps: "ps = qs @ [p]"
    by (metis rev_exhaust)
  let ?x = "\<lparr>p_offset = snd (property_map_loop qs [] 0), p_type = ptype p,
         p_size = getTypeSize (ptype p)\<rparr>"
  have "(key_of (pname p), ?x) \<in> set (fst (createPropertyMap ps))"
    using assms(2) by (simp add: ps createPropertyMap_def property_map_loop_append obj_set_member)
  moreover have "p_offset ?x + getTypeSize (p_type ?x) = snd (createPropertyMap ps)"
    by (simp add: ps createPropertyMap_def property_map_loop_append)
  ultimately show ?thesis unfolding ps by (intro exI [of _ ?x]) simp
qed

lemma bounded_fits:
  "bounded R e \<Longrightarrow> vo + R \<le> length buf \<Longrightarrow> fits buf vo e"
  by (simp add: bounded_def fits_def)

lemma vertexSize_eq: "snd (createPropertyMap props) = record_size props"
  by (simp add: createPropertyMap_def property_map_loop_snd record_size_def)

text \<open>
  Claim C1, amended. Let \<open>N\<close> be the vertex count of the header and \<open>R\<close> the record
  size, which is the stride the decoder uses. If \<open>offset + N * R\<close> does not exceed the
  length of the buffer, the binary decode returns exactly \<open>N\<close> records: bytes after the
  last record are ignored. Whenever the decode returns, it returns exactly \<open>N\<close> records.
  If the buffer is shorter than \<open>offset + N * R\<close>, with at least one record and a last
  property that is read, the decode fails with the \<open>RangeError\<close> of the out-of-range read
  and returns no records.
\<close>

theorem binary_decode_all_or_error:
  assumes "pm = createPropertyMap (properties h)"
    and "N = loop_count (vertexCount h)"
    and "R = record_size (properties h)"
  shows "snd pm = R \<and>
    (offset + N * R \<le> length buf \<longrightarrow>
       (\<exists>vs. parseBinaryVertices le buf offset h pm = Inr vs \<and> length vs = N)) \<and>
    (\<forall>vs. parseBinaryVertices le buf offset h pm = Inr vs \<longrightarrow> length vs = N) \<and>
    (0 < N \<and> properties h \<noteq> [] \<and>
     key_of (pname (last (properties h))) \<noteq> ''vertexSize'' \<and>
     key_of (pname (last (properties h))) \<noteq> ''__proto__'' \<and>
     length buf < offset + N * R \<longrightarrow>
       parseBinaryVertices le buf offset h pm = Inl RangeError)"
proof (intro conjI impI allI)
  show R: "snd pm = R"
    by (simp add: assms vertexSize_eq)
  have bnd: "\<forall>e \<in> set (fst pm). bounded R e"
    using property_map_loop_bounded [of "[]" 0 "properties h"] R
    by (simp add: assms(1) createPropertyMap_def)
  show "\<exists>vs. parseBinaryVertices le buf offset h pm = Inr vs \<and> length vs = N"
    if le: "offset + N * R \<le> length buf"
  proof -
    have "\<forall>e \<in> set (fst pm). fits buf (offset + (0 + j) * snd pm) e" if "j < N" for j
    proof
      fix e assume e: "e \<in> set (fst pm)"
      from that have "Suc j \<le> N" by simp
      then have "Suc j * R \<le> N * R" by (rule mult_le_mono1)
      with le have "(offset + j * R) + R \<le> length buf" by simp
      moreover from bnd e have "bounded R e" by blast
      ultimately have "fits buf (offset + j * R) e" by (rule bounded_fits [rotated])
      then show "fits buf (offset + (0 + j) * snd pm) e"
        by (simp add: R)
    qed
    then obtain vs where "binary_loop le buf offset pm 0 N = Inr vs"
      using binary_loop_ok [of N pm buf offset 0 le] by blast
    then show ?thesis
      by (simp add: parseBinaryVertices_def assms(2) binary_loop_length)
  qed
  show "length vs = N" if "parseBinaryVertices le buf offset h pm = Inr vs" for vs
    using that by (simp add: parseBinaryVertices_def assms(2) binary_loop_length)
  show "parseBinaryVertices le buf offset h pm = Inl RangeError"
    if a: "0 < N \<and> properties h \<noteq> [] \<and>
     key_of (pname (last (properties h))) \<noteq> ''vertexSize'' \<and>
     key_of (pname (last (properties h))) \<noteq> ''__proto__'' \<and>
     length buf < offset + N * R"
  proof -
    from a obtain info where
      mem: "(key_of (pname (last (properties h))), info) \<in> set (fst pm)" and
      ext: "p_offset info + getTypeSize (p_type info) = R"
      using last_entry [of "properties h"] R by (auto simp: assms(1))
    from a have lt: "N - 1 < N" by simp
    have "N * R = (N - 1) * R + R"
      using a by (cases N) simp_all
    then have nf: "\<not> fits buf (offset + (0 + (N - 1)) * snd pm)
        (key_of (pname (last (properties h))), info)"
      using a ext by (simp add: fits_def R)
    from lt mem nf have "binary_loop le buf offset pm 0 N = Inl RangeError"
      by (rule binary_loop_fail)
    then show ?thesis
      by (simp add: parseBinaryVertices_def assms(2))
  qed
qed

subsection \<open>A file with a trailing byte, and a truncated one\<close>

lemma parseHeader_trailing: "parseHeader True trailing_buffer = (red_header 83, True)"
  by code_simp

lemma trailing_bytes: "length trailing_buffer = 85" "trailing_buffer ! 83 = char_of (255 :: nat)"
  "length lf_header = 83"
  by code_simp+

lemma record_size_red: "record_size (properties (red_header n)) = 1"
  by (simp add: record_size_def red_header_def getTypeSize_def)

text \<open>
  The header of the file is 83 bytes long and declares one record of one byte; the file
  has 85 bytes. The load returns the mesh of the one record and raises nothing, although
  the header length plus \<open>N * R\<close> is 84.
\<close>

theorem binary_trailing_counterexample:
  "headerLength (fst (parseHeader True trailing_buffer)) +
     loop_count (vertexCount (fst (parseHeader True trailing_buffer))) *
       record_size (properties (fst (parseHeader True trailing_buffer))) = 84 \<and>
   length trailing_buffer = 85 \<and>
   fst (parse True trailing_buffer) =
     Inr (createGaussianSplatMesh [processVertex (Map.empty(''red'' \<mapsto> Fin 255))]
       (red_header 83))"
  by (simp add: parse_def parseHeader_trailing headerLength_red record_size_red
      parseVertices_red trailing_bytes map_result_def)
     (simp add: red_header_def loop_count_def)

theorem binary_decode_all_or_error_witness:
  "map_result length
     (parseBinaryVertices True trailing_buffer 83 (red_header 83)
        (createPropertyMap (properties (red_header 83)))) = Inr 1 \<and>
   parseBinaryVertices True lf_header 83 (red_header 83)
     (createPropertyMap (properties (red_header 83))) = Inl RangeError"
proof -
  have n: "loop_count (vertexCount (red_header 83)) = 1"
    by (simp add: red_header_def loop_count_def)
  have k: "properties (red_header 83) \<noteq> []"
    "key_of (pname (last (properties (red_header 83)))) = ''red''"
    by (simp_all add: red_header_def key_of_def)
  have "\<exists>vs. parseBinaryVertices True trailing_buffer 83 (red_header 83)
        (createPropertyMap (properties (red_header 83))) = Inr vs \<and> length vs = 1"
    using binary_decode_all_or_error [where h = "red_header 83" and offset = 83
        and buf = trailing_buffer and le = True, OF refl refl refl]
    by (simp add: n record_size_red trailing_bytes)
  moreover have "parseBinaryVertices True lf_header 83 (red_header 83)
     (createPropertyMap (properties (red_header 83))) = Inl RangeError"
    using binary_decode_all_or_error [where h = "red_header 83" and offset = 83
        and buf = lf_header and le = True, OF refl refl refl]
    by (simp add: n k record_size_red trailing_bytes)
  ultimately show ?thesis
    by (auto simp: map_result_def)
qed

section \<open>A file of one red point\<close>

lemma parseHeader_rgb: "parseHeader True rgb_buffer = (rgb_header, True)"
  by code_simp

lemma rgb_bytes:
  "length rgb_buffer = 127" "rgb_buffer ! 124 = char_of (255 :: nat)"
  "rgb_buffer ! 125 = char_of (0 :: nat)" "rgb_buffer ! 126 = char_of (0 :: nat)"
  by code_simp+

lemma parseVertices_rgb:
  "parseVertices True rgb_buffer 124 rgb_header = Inr [processVertex red_vertex]"
proof -
  have "format rgb_header \<noteq> Some ''ascii''" "loop_count (vertexCount rgb_header) = Suc 0"
    "createPropertyMap (properties rgb_header) =
       ([(''red'', \<lparr>p_offset = 0, p_type = Some ''uchar'', p_size = 1\<rparr>),
         (''green'', \<lparr>p_offset = 1, p_type = Some ''uchar'', p_size = 1\<rparr>),
         (''blue'', \<lparr>p_offset = 2, p_type = Some ''uchar'', p_size = 1\<rparr>)], 3)"
    by (simp_all add: rgb_header_def loop_count_def createPropertyMap_def key_of_def
        getTypeSize_def)
  then show ?thesis
    by (simp add: parseVertices_def parseBinaryVertices_def read_uchar rgb_bytes vertex_set_def
        red_vertex_def)
qed

lemma parse_rgb:
  "fst (parse True rgb_buffer) = Inr (createGaussianSplatMesh [processVertex red_vertex] rgb_header)"
proof -
  have "headerLength rgb_header = 124" by (simp add: rgb_header_def)
  then show ?thesis
    by (simp add: parse_def parseHeader_rgb parseVertices_rgb map_result_def)
qed

text \<open>
  The file has no \<open>f_dc\<close> fields and the \<open>uchar\<close> colour 255, 0, 0: the degree-0 colour of
  the loaded mesh is the inverse encoding and its display colour is \<open>[1, 0, 0]\<close>.
\<close>

theorem display_rgb_from_colorDC_witness:
  "map_result attr_sh_dc (fst (parse True rgb_buffer)) =
     Inr [Fin ((1 - 1 / 2) / SH_C0), Fin ((0 - 1 / 2) / SH_C0), Fin ((0 - 1 / 2) / SH_C0)] \<and>
   map_result attr_color (fst (parse True rgb_buffer)) = Inr [Fin 1, Fin 0, Fin 0]"
proof -
  have z: "dc_all_zero red_vertex" "red_vertex ''red'' = Some (Fin 255)"
    "red_vertex ''green'' = Some (Fin 0)" "red_vertex ''blue'' = Some (Fin 0)"
    by (simp_all add: red_vertex_def dc_all_zero_def dc_names_def)
  have dc: "attr_sh_dc (createGaussianSplatMesh [s] h) = map (component (sh_dc s)) [0, 1, 2]"
    for s h by (simp add: createGaussianSplatMesh_def)
  show ?thesis
    using display_rgb_from_colorDC [of "[]" rgb_header red_vertex 255 0 0] z
    by (simp add: parse_rgb map_result_def dc component_def js_index_def)
qed

end
